theory Spec2Isabelle
  imports Main "HOL-Library.Word" "HOL-Library.Sublist"
begin

section \<open>JavaScript strings\<close>

text \<open>
  A JavaScript string is a finite sequence of UTF-16 code units, so a string is a list of
  16-bit words. \<open>js\<close> writes an ASCII literal of the source as such a list.
\<close>

type_synonym code_unit = "16 word"
type_synonym jsstring = "code_unit list"

definition cu :: "char \<Rightarrow> code_unit" where
  "cu c = of_nat (of_char c)"

definition js :: "string \<Rightarrow> jsstring" where
  "js s = map cu s"

text \<open>The character classes of ECMAScript regular expressions without the \<open>u\<close> flag.\<close>

definition is_digit :: "code_unit \<Rightarrow> bool" where
  \<comment> \<open>\<open>\d\<close>: the ASCII digits\<close>
  "is_digit c = (0x30 \<le> c \<and> c \<le> 0x39)"

definition is_line_terminator :: "code_unit \<Rightarrow> bool" where
  \<comment> \<open>LF, CR, LINE SEPARATOR, PARAGRAPH SEPARATOR: what \<open>.\<close> does not match\<close>
  "is_line_terminator c = (c = 0x0A \<or> c = 0x0D \<or> c = 0x2028 \<or> c = 0x2029)"

definition is_white_space :: "code_unit \<Rightarrow> bool" where
  \<comment> \<open>TAB, VT, FF, the byte order mark and the Unicode space separators\<close>
  "is_white_space c =
     (c = 0x09 \<or> c = 0x0B \<or> c = 0x0C \<or> c = 0x20 \<or> c = 0xA0 \<or> c = 0x1680
      \<or> (0x2000 \<le> c \<and> c \<le> 0x200A) \<or> c = 0x202F \<or> c = 0x205F \<or> c = 0x3000
      \<or> c = 0xFEFF)"

definition is_space :: "code_unit \<Rightarrow> bool" where
  \<comment> \<open>\<open>\s\<close>, and what \<open>String.prototype.trim\<close> removes\<close>
  "is_space c = (is_white_space c \<or> is_line_terminator c)"

definition startsWith :: "jsstring \<Rightarrow> jsstring \<Rightarrow> bool" where
  "startsWith s p = prefix p s"

definition endsWith :: "jsstring \<Rightarrow> jsstring \<Rightarrow> bool" where
  "endsWith s p = suffix p s"

definition trim :: "jsstring \<Rightarrow> jsstring" where
  "trim s = rev (dropWhile is_space (rev (dropWhile is_space s)))"

text \<open>\<open>script.split("\n")\<close>: the pieces between line feeds; the empty string gives one empty piece.\<close>

primrec split_newline :: "jsstring \<Rightarrow> jsstring list" where
  "split_newline [] = [[]]"
| "split_newline (c # cs) =
     (if c = 0x0A then [] # split_newline cs
      else (case split_newline cs of
              [] \<Rightarrow> [[c]]
            | l # ls \<Rightarrow> (c # l) # ls))"


section \<open>The script viewer: \<open>formatScript\<close>\<close>

datatype speaker = DOUG | CLAIRE

text \<open>
  The element \<open>formatScript\<close> returns for one line: the speaker \<open>div\<close> holds the label
  span and the text span, the heading \<open>div\<close> its class name and its text.
\<close>

datatype element =
    SpeakerDiv speaker jsstring
  | TimestampDiv jsstring
  | StageDirectionDiv jsstring
  | HeadingDiv string jsstring
  | HorizontalRule
  | EmptyLineDiv
  | TextDiv jsstring

definition opt_asterisk :: "jsstring \<Rightarrow> jsstring" where
  \<comment> \<open>what is left after a greedy \<open>\*?\<close>\<close>
  "opt_asterisk s = (case s of [] \<Rightarrow> [] | c # cs \<Rightarrow> if c = cu CHR ''*'' then cs else s)"

definition replace_label :: "jsstring \<Rightarrow> jsstring \<Rightarrow> jsstring" where
  \<comment> \<open>\<open>line.replace(/^\*?\*?LABEL\*?\*?\s*/, "")\<close> for a label that does not begin with an
     asterisk (\<open>DOUG:\<close>, \<open>CLAIRE:\<close>): giving back an asterisk can then never make the label
     match, so the greedy choice decides; without a match the line is returned as it is\<close>
  "replace_label label line =
     (let s = opt_asterisk (opt_asterisk line) in
      if prefix label s
      then dropWhile is_space (opt_asterisk (opt_asterisk (drop (length label) s)))
      else line)"

definition is_digit_or_colon :: "code_unit \<Rightarrow> bool" where
  \<comment> \<open>the class \<open>[\d:]\<close>\<close>
  "is_digit_or_colon c = (is_digit c \<or> c = cu CHR '':'')"

definition match_timestamp :: "jsstring \<Rightarrow> bool" where
  \<comment> \<open>\<open>line.match(/^\[[\d:]+\]/)\<close>: the longest run of digits and colons after the opening
     bracket is not empty and a closing bracket follows it (a shorter run is followed by a
     digit or a colon, so backtracking finds nothing more)\<close>
  "match_timestamp line =
     (case line of
        [] \<Rightarrow> False
      | c # rest \<Rightarrow>
          c = cu CHR ''[''
          \<and> takeWhile is_digit_or_colon rest \<noteq> []
          \<and> (case dropWhile is_digit_or_colon rest of
                [] \<Rightarrow> False
              | d # _ \<Rightarrow> d = cu CHR '']''))"

definition match_stage_direction :: "jsstring \<Rightarrow> bool" where
  \<comment> \<open>\<open>line.match(/^\[.*\]$/)\<close>, no \<open>m\<close> and no \<open>s\<close> flag: the first code unit is the opening
     bracket, the last one the closing bracket, and no line terminator lies between them\<close>
  "match_stage_direction line =
     (2 \<le> length line
      \<and> hd line = cu CHR ''[''
      \<and> last line = cu CHR '']''
      \<and> list_all (\<lambda>c. \<not> is_line_terminator c) (butlast (tl line)))"

definition heading_level :: "jsstring \<Rightarrow> nat" where
  \<comment> \<open>\<open>line.match(/^#+/)?.[0].length || 1\<close>\<close>
  "heading_level line =
     (let n = length (takeWhile (\<lambda>c. c = cu CHR ''#'') line) in if n = 0 then 1 else n)"

definition heading_text :: "jsstring \<Rightarrow> jsstring" where
  \<comment> \<open>\<open>line.replace(/^#+\s*/, "")\<close>\<close>
  "heading_text line =
     (if takeWhile (\<lambda>c. c = cu CHR ''#'') line = [] then line
      else dropWhile is_space (dropWhile (\<lambda>c. c = cu CHR ''#'') line))"

definition heading_className :: "nat \<Rightarrow> string" where
  "heading_className level =
     (if level = 1 then ''text-xl font-bold mt-6 mb-3''
      else if level = 2 then ''text-lg font-semibold mt-5 mb-2''
      else if level = 3 then ''text-base font-medium mt-4 mb-2''
      else ''font-medium mt-3 mb-1'')"

definition match_horizontal_rule :: "jsstring \<Rightarrow> bool" where
  \<comment> \<open>\<open>line.match(/^[-*]{3,}$/)\<close>\<close>
  "match_horizontal_rule line =
     (3 \<le> length line \<and> list_all (\<lambda>c. c = cu CHR ''-'' \<or> c = cu CHR ''*'') line)"

definition formatLine :: "jsstring \<Rightarrow> element" where
  \<comment> \<open>the body of the callback of \<open>lines.map\<close>\<close>
  "formatLine line =
     (if startsWith line (js ''DOUG:'') \<or> startsWith line (js ''**DOUG:**'')
        then SpeakerDiv DOUG (replace_label (js ''DOUG:'') line)
      else if startsWith line (js ''CLAIRE:'') \<or> startsWith line (js ''**CLAIRE:**'')
        then SpeakerDiv CLAIRE (replace_label (js ''CLAIRE:'') line)
      else if match_timestamp line then TimestampDiv line
      else if match_stage_direction line then StageDirectionDiv line
      else if startsWith line (js ''#'')
        then HeadingDiv (heading_className (heading_level line)) (heading_text line)
      else if match_horizontal_rule line then HorizontalRule
      else if trim line = [] then EmptyLineDiv
      else TextDiv line)"

definition formatScript :: "jsstring \<Rightarrow> (nat \<times> element) list" where
  \<comment> \<open>each element with its \<open>key\<close>, the index of the line\<close>
  "formatScript script =
     map (\<lambda>(index, line). (index, formatLine line)) (enumerate 0 (split_newline script))"

text \<open>The kinds of line the viewer tells apart.\<close>

datatype line_kind = SpeakerLine | Timestamp | StageDirection | Heading | Other

fun kind_of :: "element \<Rightarrow> line_kind" where
  "kind_of (SpeakerDiv _ _) = SpeakerLine"
| "kind_of (TimestampDiv _) = Timestamp"
| "kind_of (StageDirectionDiv _) = StageDirection"
| "kind_of (HeadingDiv _ _) = Heading"
| "kind_of HorizontalRule = Other"
| "kind_of EmptyLineDiv = Other"
| "kind_of (TextDiv _) = Other"

text \<open>The shapes of line the script format names.\<close>

definition mm_ss :: "jsstring \<Rightarrow> bool" where
  \<comment> \<open>two digits, a colon, two digits\<close>
  "mm_ss t =
     (case t of
        [a, b, c, d, e] \<Rightarrow> is_digit a \<and> is_digit b \<and> c = cu CHR '':'' \<and> is_digit d \<and> is_digit e
      | _ \<Rightarrow> False)"

definition hh_mm_ss :: "jsstring \<Rightarrow> bool" where
  "hh_mm_ss t =
     (case t of
        a # b # c # t' \<Rightarrow> is_digit a \<and> is_digit b \<and> c = cu CHR '':'' \<and> mm_ss t'
      | _ \<Rightarrow> False)"

definition starts_with_timestamp :: "jsstring \<Rightarrow> bool" where
  \<comment> \<open>\<open>[MM:SS]\<close> or \<open>[HH:MM:SS]\<close> at the start of the line\<close>
  "starts_with_timestamp line =
     (case line of
        [] \<Rightarrow> False
      | c # rest \<Rightarrow>
          c = cu CHR ''[''
          \<and> ((mm_ss (take 5 rest) \<and> startsWith (drop 5 rest) (js '']''))
             \<or> (hh_mm_ss (take 8 rest) \<and> startsWith (drop 8 rest) (js '']''))))"

definition bracket_content :: "jsstring \<Rightarrow> jsstring" where
  "bracket_content line = butlast (tl line)"

definition bracketed :: "jsstring \<Rightarrow> bool" where
  \<comment> \<open>the line opens with a bracket and closes with one\<close>
  "bracketed line =
     (2 \<le> length line \<and> hd line = cu CHR ''['' \<and> last line = cu CHR '']'')"

definition single_bracket_pair :: "jsstring \<Rightarrow> bool" where
  \<comment> \<open>fully wrapped in one bracket pair: no further bracket inside\<close>
  "single_bracket_pair line =
     (bracketed line
      \<and> list_all (\<lambda>c. c \<noteq> cu CHR ''['' \<and> c \<noteq> cu CHR '']'') (bracket_content line))"

definition leading_digit :: "jsstring \<Rightarrow> bool" where
  "leading_digit line = (case bracket_content line of [] \<Rightarrow> False | c # _ \<Rightarrow> is_digit c)"

definition digits_and_colons :: "jsstring \<Rightarrow> bool" where
  \<comment> \<open>a non-empty run of digits and colons\<close>
  "digits_and_colons t = (t \<noteq> [] \<and> list_all is_digit_or_colon t)"

definition no_line_terminator :: "jsstring \<Rightarrow> bool" where
  "no_line_terminator t = list_all (\<lambda>c. \<not> is_line_terminator c) t"

definition up_to_two_asterisks :: "jsstring \<Rightarrow> jsstring" where
  \<comment> \<open>the text with the asterisks of an emphasis mark at its start removed: one or two\<close>
  "up_to_two_asterisks t =
     (if prefix (js ''**'') t then drop 2 t
      else if prefix (js ''*'') t then drop 1 t
      else t)"


section \<open>Results of calls to the backend\<close>

text \<open>
  A call of \<open>api\<close> is awaited inside \<open>try\<close>: it resolves with a value or it rejects, and
  every \<open>catch\<close> reads the rejection as \<open>err instanceof Error ? err.message : fallback\<close>.
\<close>

datatype rejection = ErrorInstance jsstring | OtherValue

datatype 'a outcome = Resolved 'a | Rejected rejection

definition rejection_message :: "rejection \<Rightarrow> jsstring \<Rightarrow> jsstring" where
  "rejection_message r fallback = (case r of ErrorInstance m \<Rightarrow> m | OtherValue \<Rightarrow> fallback)"

definition truthy :: "jsstring option \<Rightarrow> bool" where
  \<comment> \<open>a \<open>string | null\<close> in a condition: \<open>null\<close> and the empty string are falsy\<close>
  "truthy v = (case v of None \<Rightarrow> False | Some m \<Rightarrow> m \<noteq> [])"

definition or_else :: "jsstring option \<Rightarrow> jsstring \<Rightarrow> jsstring" where
  \<comment> \<open>\<open>v || fallback\<close>\<close>
  "or_else v fallback = (case v of None \<Rightarrow> fallback | Some m \<Rightarrow> if m \<noteq> [] then m else fallback)"


section \<open>The generation wizard\<close>

datatype duration = short | medium | long

text \<open>A JavaScript number as \<open>parseInt\<close> returns it: an integer or \<open>NaN\<close>.\<close>

datatype jsnumber = Num int | NaN

text \<open>
  Modelled from the spec: the type \<open>GenerationSettings\<close> is declared in \<open>lib/api\<close>, which is
  not among the sources; the fields are those of the wizard's initial state, with the
  spec's ranges (\<open>duration\<close> one of short, medium and long).
\<close>

record GenerationSettings =
  duration :: duration
  humor_level :: jsnumber
  focus_areas :: "jsstring list"
  custom_talking_points :: "jsstring list"

definition initial_settings :: GenerationSettings where
  "initial_settings =
     \<lparr>duration = medium, humor_level = Num 3, focus_areas = [], custom_talking_points = []\<rparr>"

definition focusOptions :: "(jsstring \<times> jsstring) list" where
  \<comment> \<open>\<open>id\<close> and \<open>label\<close>\<close>
  "focusOptions =
     [(js ''utilities'', js ''Utilities''), (js ''consumers'', js ''Consumers''),
      (js ''startups'', js ''Startups''), (js ''regulatory'', js ''Regulatory'')]"

definition durationOptions :: "duration list" where
  "durationOptions = [short, medium, long]"

definition toggleFocusArea :: "jsstring \<Rightarrow> GenerationSettings \<Rightarrow> GenerationSettings" where
  "toggleFocusArea area prev =
     prev\<lparr>focus_areas :=
       (if area \<in> set (focus_areas prev)
        then filter (\<lambda>a. a \<noteq> area) (focus_areas prev)
        else focus_areas prev @ [area])\<rparr>"

definition selectDuration :: "duration \<Rightarrow> GenerationSettings \<Rightarrow> GenerationSettings" where
  \<comment> \<open>\<open>setSettings((p) => ({ ...p, duration }))\<close>\<close>
  "selectDuration d p = p\<lparr>duration := d\<rparr>"

definition target_minutes :: "duration \<Rightarrow> nat" where
  \<comment> \<open>\<open>duration === "short" ? 10 : duration === "medium" ? 20 : 30\<close>\<close>
  "target_minutes d = (if d = short then 10 else if d = medium then 20 else 30)"

text \<open>
  \<open>parseInt(string)\<close> with no radix: white space is skipped, a sign is read, \<open>0x\<close> or \<open>0X\<close>
  selects radix 16, and the longest run of digits of the radix is the value; no digit gives
  \<open>NaN\<close>. (The model keeps the integer where JavaScript rounds it to a double, beyond
  \<open>2^53\<close>.)
\<close>

definition digit_of :: "nat \<Rightarrow> code_unit \<Rightarrow> nat option" where
  "digit_of radix c =
     (let v = (if 0x30 \<le> c \<and> c \<le> 0x39 then Some (unat c - 0x30)
               else if 0x61 \<le> c \<and> c \<le> 0x7A then Some (unat c - 0x61 + 10)
               else if 0x41 \<le> c \<and> c \<le> 0x5A then Some (unat c - 0x41 + 10)
               else None)
      in case v of None \<Rightarrow> None | Some n \<Rightarrow> if n < radix then Some n else None)"

fun digits_value :: "nat \<Rightarrow> nat \<Rightarrow> jsstring \<Rightarrow> nat" where
  "digits_value radix acc [] = acc"
| "digits_value radix acc (c # cs) =
     (case digit_of radix c of
        None \<Rightarrow> acc
      | Some n \<Rightarrow> digits_value radix (acc * radix + n) cs)"

definition parse_digits :: "nat \<Rightarrow> jsstring \<Rightarrow> nat option" where
  "parse_digits radix t =
     (case t of
        [] \<Rightarrow> None
      | c # _ \<Rightarrow> (case digit_of radix c of None \<Rightarrow> None | Some _ \<Rightarrow> Some (digits_value radix 0 t)))"

definition parseInt :: "jsstring \<Rightarrow> jsnumber" where
  "parseInt v =
     (let t = dropWhile is_space v;
          negative = startsWith t (js ''-'');
          u = (if startsWith t (js ''-'') \<or> startsWith t (js ''+'') then tl t else t);
          hex = (startsWith u (js ''0x'') \<or> startsWith u (js ''0X''));
          digits = (if hex then parse_digits 16 (drop 2 u) else parse_digits 10 u)
      in case digits of
           None \<Rightarrow> NaN
         | Some n \<Rightarrow> Num (if negative then - int n else int n))"

definition changeHumor :: "jsstring \<Rightarrow> GenerationSettings \<Rightarrow> GenerationSettings" where
  \<comment> \<open>\<open>setSettings((p) => ({ ...p, humor_level: parseInt(e.target.value) }))\<close>\<close>
  "changeHumor v p = p\<lparr>humor_level := parseInt v\<rparr>"

definition humor_slider_values :: "jsstring list" where
  \<comment> \<open>the values an \<open>input\<close> of type \<open>range\<close> with \<open>min={1}\<close>, \<open>max={5}\<close> and the default step
     of 1 can report\<close>
  "humor_slider_values = [js ''1'', js ''2'', js ''3'', js ''4'', js ''5'']"

text \<open>What the controls of the wizard can do to the settings.\<close>

datatype wizard_event = SelectDuration duration | ChangeHumor jsstring | ToggleFocus jsstring

fun offered :: "wizard_event \<Rightarrow> bool" where
  "offered (SelectDuration d) = (d \<in> set durationOptions)"
| "offered (ChangeHumor v) = (v \<in> set humor_slider_values)"
| "offered (ToggleFocus a) = (a \<in> set (map fst focusOptions))"

fun wizard_step :: "wizard_event \<Rightarrow> GenerationSettings \<Rightarrow> GenerationSettings" where
  "wizard_step (SelectDuration d) p = selectDuration d p"
| "wizard_step (ChangeHumor v) p = changeHumor v p"
| "wizard_step (ToggleFocus a) p = toggleFocusArea a p"

fun wizard_run :: "wizard_event list \<Rightarrow> GenerationSettings \<Rightarrow> GenerationSettings option" where
  "wizard_run [] p = Some p"
| "wizard_run (e # es) p = (if offered e then wizard_run es (wizard_step e p) else None)"

definition settings_invariant :: "GenerationSettings \<Rightarrow> bool" where
  "settings_invariant p =
     (duration p \<in> set [short, medium, long]
      \<and> (case humor_level p of Num n \<Rightarrow> 1 \<le> n \<and> n \<le> 5 | NaN \<Rightarrow> False)
      \<and> list_all (\<lambda>a. a \<in> set [js ''utilities'', js ''consumers'', js ''startups'', js ''regulatory''])
           (focus_areas p))"


section \<open>The episode detail page\<close>

text \<open>
  Modelled from the spec: the types \<open>Insights\<close> and \<open>Episode\<close> are declared in \<open>lib/api\<close>,
  which is not among the sources. \<open>Insights\<close> has the spec's four categories, each a
  sequence of strings; \<open>Episode\<close> has the fields the page and the script viewer read.
\<close>

record Insights =
  utilities :: "jsstring list"
  consumers :: "jsstring list"
  startups :: "jsstring list"
  regulatory :: "jsstring list"

record Episode =
  title :: jsstring
  script :: jsstring
  insights :: "Insights option"
  summary :: jsstring
  created_at :: jsstring

record page_state =
  episode :: "Episode option"
  isLoading :: bool
  error :: "jsstring option"

datatype insight_card = InsightCard jsstring "jsstring list"

datatype page_view =
    Spinner
  | EpisodeNotFound jsstring
  | EpisodeDetail jsstring jsstring "insight_card list option" "(nat \<times> element) list"

definition category_card :: "jsstring \<Rightarrow> jsstring list \<Rightarrow> insight_card list" where
  \<comment> \<open>\<open>items.length > 0 && (card with heading and items.slice(0, 2))\<close>\<close>
  "category_card heading items =
     (if length items > 0 then [InsightCard heading (take 2 items)] else [])"

definition insight_cards :: "Insights \<Rightarrow> insight_card list" where
  "insight_cards i =
     category_card (js ''Utilities'') (utilities i)
     @ category_card (js ''Consumers'') (consumers i)
     @ category_card (js ''Startups'') (startups i)
     @ category_card (js ''Regulatory'') (regulatory i)"

definition EpisodeDetailPage :: "(jsstring \<Rightarrow> jsstring) \<Rightarrow> page_state \<Rightarrow> page_view" where
  \<comment> \<open>what the page returns; \<open>formatDate\<close> stands for \<open>new Date(_).toLocaleDateString\<close>\<close>
  "EpisodeDetailPage formatDate s =
     (if page_state.isLoading s then Spinner
      else if truthy (page_state.error s) \<or> episode s = None
        then EpisodeNotFound (or_else (page_state.error s) (js ''The episode could not be loaded.''))
      else (case episode s of
              None \<Rightarrow> EpisodeNotFound (js ''The episode could not be loaded.'')
            | Some e \<Rightarrow>
                EpisodeDetail (title e) (formatDate (created_at e))
                  (map_option insight_cards (insights e))
                  (formatScript (script e))))"


section \<open>The blog uploader\<close>

text \<open>A file as the handlers read it: they look at its name and pass it on.\<close>

record File =
  name :: jsstring
  text_of :: jsstring

record uploader_state =
  isDragging :: bool
  isLoading :: bool
  error :: "jsstring option"
  pasteMode :: bool
  title :: jsstring
  content :: jsstring

datatype api_call = UploadBlog File | CreateBlog jsstring jsstring

text \<open>
  What a handler has done when it returns: the component's state, the calls made to the
  backend, and the blogs handed to \<open>onUpload\<close> (which is taken not to throw). The backend's
  answer to a call is a parameter of the handler.
\<close>

record 'blog handled =
  state :: uploader_state
  calls :: "api_call list"
  uploaded :: "'blog list"

definition uploadFile ::
  "(File \<Rightarrow> 'blog outcome) \<Rightarrow> File \<Rightarrow> uploader_state \<Rightarrow> 'blog handled" where
  "uploadFile uploadBlog file s =
     (case uploadBlog file of
        Resolved blog \<Rightarrow>
          \<lparr>state = s\<lparr>uploader_state.isLoading := False, uploader_state.error := None\<rparr>,
           calls = [UploadBlog file], uploaded = [blog]\<rparr>
      | Rejected err \<Rightarrow>
          \<lparr>state = s\<lparr>uploader_state.isLoading := False,
                      uploader_state.error := Some (rejection_message err (js ''Upload failed''))\<rparr>,
           calls = [UploadBlog file], uploaded = []\<rparr>)"

definition markdown_name :: "jsstring \<Rightarrow> bool" where
  \<comment> \<open>the negation of \<open>!file.name.endsWith(".md") && !file.name.endsWith(".markdown")\<close>\<close>
  "markdown_name n = (endsWith n (js ''.md'') \<or> endsWith n (js ''.markdown''))"

definition handleDrop ::
  "(File \<Rightarrow> 'blog outcome) \<Rightarrow> File list \<Rightarrow> uploader_state \<Rightarrow> 'blog handled" where
  \<comment> \<open>the list is \<open>e.dataTransfer.files\<close>\<close>
  "handleDrop uploadBlog files s =
     (let s1 = s\<lparr>isDragging := False, uploader_state.error := None\<rparr> in
      case files of
        [] \<Rightarrow> \<lparr>state = s1, calls = [], uploaded = []\<rparr>
      | file # _ \<Rightarrow>
          if \<not> endsWith (name file) (js ''.md'') \<and> \<not> endsWith (name file) (js ''.markdown'')
          then \<lparr>state = s1\<lparr>uploader_state.error := Some (js ''Please upload a markdown file (.md)'')\<rparr>,
                calls = [], uploaded = []\<rparr>
          else uploadFile uploadBlog file s1)"

definition handleFileSelect ::
  "(File \<Rightarrow> 'blog outcome) \<Rightarrow> File list option \<Rightarrow> uploader_state \<Rightarrow> 'blog handled" where
  \<comment> \<open>the list is \<open>e.target.files\<close>, which may be \<open>null\<close>\<close>
  "handleFileSelect uploadBlog files s =
     (case files of
        None \<Rightarrow> \<lparr>state = s, calls = [], uploaded = []\<rparr>
      | Some [] \<Rightarrow> \<lparr>state = s, calls = [], uploaded = []\<rparr>
      | Some (file # _) \<Rightarrow>
          if \<not> endsWith (name file) (js ''.md'') \<and> \<not> endsWith (name file) (js ''.markdown'')
          then \<lparr>state = s\<lparr>uploader_state.error := Some (js ''Please upload a markdown file (.md)'')\<rparr>,
                calls = [], uploaded = []\<rparr>
          else uploadFile uploadBlog file s)"

definition handlePasteSubmit ::
  "(jsstring \<Rightarrow> jsstring \<Rightarrow> 'blog outcome) \<Rightarrow> uploader_state \<Rightarrow> 'blog handled" where
  "handlePasteSubmit createBlog s =
     (if trim (uploader_state.title s) = [] \<or> trim (content s) = []
      then \<lparr>state = s\<lparr>uploader_state.error := Some (js ''Please provide both title and content'')\<rparr>,
            calls = [], uploaded = []\<rparr>
      else (case createBlog (uploader_state.title s) (content s) of
              Resolved blog \<Rightarrow>
                \<lparr>state = s\<lparr>uploader_state.isLoading := False, uploader_state.error := None,
                            uploader_state.title := [], content := [], pasteMode := False\<rparr>,
                 calls = [CreateBlog (uploader_state.title s) (content s)], uploaded = [blog]\<rparr>
            | Rejected err \<Rightarrow>
                \<lparr>state = s\<lparr>uploader_state.isLoading := False,
                            uploader_state.error := Some (rejection_message err (js ''Create failed''))\<rparr>,
                 calls = [CreateBlog (uploader_state.title s) (content s)], uploaded = []\<rparr>))"

definition error_shown :: "uploader_state \<Rightarrow> jsstring option" where
  \<comment> \<open>\<open>{error && <p>{error}</p>}\<close>: the paragraph both views of the uploader end with\<close>
  "error_shown s = (if truthy (uploader_state.error s) then uploader_state.error s else None)"


section \<open>The audio panel\<close>

datatype job_status = pending | generating | processing | complete | failed

text \<open>
  Modelled from the spec: the type \<open>AudioJob\<close> is declared in \<open>lib/api\<close>, which is not among
  the sources; the fields are the spec's, and \<open>status\<close> is one of its five states.
\<close>

record AudioJob =
  episode_id :: jsstring
  status :: job_status
  progress :: int
  message :: jsstring
  segment_count :: "int option"
  duration_seconds :: "int option"
  output_path :: "jsstring option"

text \<open>
  A call to the backend that has not settled yet, with the episode it names. The status
  call is made on mount (\<open>loadStatus\<close>) and by the interval; what runs when it settles
  differs, so the two are told apart.
\<close>

datatype request = LoadStatus jsstring | PollStatus jsstring | GenerateAudio jsstring

text \<open>
  The component's four state variables, whether the interval of the polling effect is
  set, and the calls that are outstanding. The model follows one mounted panel, whose
  \<open>episodeId\<close> stays the same.
\<close>

record panel_state =
  audioJob :: "AudioJob option"
  isLoading :: bool
  isGenerating :: bool
  error :: "jsstring option"
  interval :: bool
  outstanding :: "request list"

definition terminal :: "job_status \<Rightarrow> bool" where
  \<comment> \<open>\<open>status === "complete" || status === "failed"\<close>\<close>
  "terminal st = (st = complete \<or> st = failed)"

definition mounted :: "jsstring \<Rightarrow> panel_state" where
  \<comment> \<open>after the first render and its effects: \<open>loadStatus\<close> has made its call, and the polling
     effect has returned at \<open>if (!audioJob) return\<close>\<close>
  "mounted episodeId =
     \<lparr>audioJob = None, isLoading = True, isGenerating = False, error = None,
      interval = False, outstanding = [LoadStatus episodeId]\<rparr>"

definition polling_effect :: "panel_state \<Rightarrow> panel_state" where
  \<comment> \<open>the effect with dependency \<open>audioJob\<close>: its cleanup clears the interval, its body sets a
     new one unless there is no job or the job's status is terminal\<close>
  "polling_effect s =
     s\<lparr>interval := (case audioJob s of None \<Rightarrow> False | Some j \<Rightarrow> \<not> terminal (status j))\<rparr>"

text \<open>
  What can happen to the panel: the interval fires and its callback makes the status
  call; a status call settles, with the answer of the backend (a job, or \<open>null\<close> when
  there is none); the user clicks the button that runs \<open>handleGenerate\<close>; the generate
  call settles. Calls are awaited, so they settle in any order, and the interval fires
  whether or not an earlier poll has been answered. Time is not modelled: the interval
  fires at some moment while it is set. The state updates made in one go, between two
  awaited calls, are one step.
\<close>

datatype panel_event =
    IntervalFires
  | StatusSettles request "AudioJob option outcome"
  | ClickGenerate
  | GenerateSettles "AudioJob outcome"

definition checkAudioStatus :: "AudioJob option outcome \<Rightarrow> panel_state \<Rightarrow> panel_state \<times> AudioJob option" where
  \<comment> \<open>from the point where the awaited call settles: the new state and the value returned\<close>
  "checkAudioStatus answer s =
     (case answer of
        Resolved st \<Rightarrow> (polling_effect (s\<lparr>audioJob := st\<rparr>), st)
      | Rejected _ \<Rightarrow> (s, None))"

definition generate_button_enabled :: "panel_state \<Rightarrow> bool" where
  \<comment> \<open>a button with \<open>onClick={handleGenerate}\<close> is on the page and not disabled: the panel is
     not loading, there is no job or the job has failed, and \<open>isGenerating\<close> is false\<close>
  "generate_button_enabled s =
     (\<not> panel_state.isLoading s \<and> \<not> isGenerating s
      \<and> (case audioJob s of None \<Rightarrow> True | Some j \<Rightarrow> status j = failed))"

fun enabled :: "jsstring \<Rightarrow> panel_event \<Rightarrow> panel_state \<Rightarrow> bool" where
  "enabled episodeId IntervalFires s = interval s"
| "enabled episodeId (StatusSettles r answer) s =
     (r \<in> set (outstanding s) \<and> (r = LoadStatus episodeId \<or> r = PollStatus episodeId))"
| "enabled episodeId ClickGenerate s = generate_button_enabled s"
| "enabled episodeId (GenerateSettles answer) s = (GenerateAudio episodeId \<in> set (outstanding s))"

fun step :: "jsstring \<Rightarrow> panel_event \<Rightarrow> panel_state \<Rightarrow> panel_state" where
  "step episodeId IntervalFires s =
     s\<lparr>outstanding := outstanding s @ [PollStatus episodeId]\<rparr>"
| "step episodeId (StatusSettles r answer) s =
     (let (s1, returned) = checkAudioStatus answer (s\<lparr>outstanding := remove1 r (outstanding s)\<rparr>) in
      if r = LoadStatus episodeId then s1\<lparr>panel_state.isLoading := False\<rparr>
      else (case returned of
              None \<Rightarrow> s1
            | Some j \<Rightarrow> if terminal (status j) then s1\<lparr>isGenerating := False\<rparr> else s1))"
| "step episodeId ClickGenerate s =
     s\<lparr>isGenerating := True, panel_state.error := None,
       outstanding := outstanding s @ [GenerateAudio episodeId]\<rparr>"
| "step episodeId (GenerateSettles answer) s =
     (let s0 = s\<lparr>outstanding := remove1 (GenerateAudio episodeId) (outstanding s)\<rparr> in
      case answer of
        Resolved job \<Rightarrow> polling_effect (s0\<lparr>audioJob := Some job\<rparr>)
      | Rejected err \<Rightarrow>
          s0\<lparr>panel_state.error := Some (rejection_message err (js ''Failed to start audio generation'')),
             isGenerating := False\<rparr>)"

fun run :: "jsstring \<Rightarrow> panel_event list \<Rightarrow> panel_state \<Rightarrow> panel_state option" where
  "run episodeId [] s = Some s"
| "run episodeId (e # es) s =
     (if enabled episodeId e s then run episodeId es (step episodeId e s) else None)"

text \<open>What the panel returns.\<close>

datatype badge = Ready | Failed | Processing

record panel_view =
  badges :: "badge list"
  error_box :: "jsstring option"
  progress_section :: "(jsstring \<times> int \<times> int option) option"
  completed_section :: "(int option \<times> jsstring) option"
  failed_section :: "(jsstring \<times> bool) option"
  no_audio_section :: "bool option"

datatype panel_output = LoadingCard | Panel panel_view

definition isProcessing :: "panel_state \<Rightarrow> bool" where
  "isProcessing s =
     (case audioJob s of None \<Rightarrow> False | Some j \<Rightarrow> status j \<in> set [pending, generating, processing])"

definition nonzero :: "int option \<Rightarrow> int option" where
  \<comment> \<open>\<open>n && ...\<close> for a number: \<open>null\<close> and 0 are falsy\<close>
  "nonzero n = (case n of None \<Rightarrow> None | Some k \<Rightarrow> if k = 0 then None else Some k)"

definition AudioPanel :: "jsstring \<Rightarrow> panel_state \<Rightarrow> panel_output" where
  \<comment> \<open>the completed section holds the duration shown and the episode whose download URL is the
     source of the player and the target of the download button; the failed section holds the
     message and the \<open>disabled\<close> flag of the retry button, the last section the \<open>disabled\<close> flag
     of the generate button\<close>
  "AudioPanel episodeId s =
     (if panel_state.isLoading s then LoadingCard
      else Panel
        \<lparr>badges =
           (case audioJob s of
              None \<Rightarrow> []
            | Some j \<Rightarrow>
                (if status j = complete then [Ready] else [])
                @ (if status j = failed then [Failed] else [])
                @ (if isProcessing s then [Processing] else [])),
         error_box = (if truthy (panel_state.error s) then panel_state.error s else None),
         progress_section =
           (case audioJob s of
              None \<Rightarrow> None
            | Some j \<Rightarrow>
                if isProcessing s then Some (message j, progress j, nonzero (segment_count j))
                else None),
         completed_section =
           (case audioJob s of
              None \<Rightarrow> None
            | Some j \<Rightarrow>
                if status j = complete then Some (nonzero (duration_seconds j), episodeId) else None),
         failed_section =
           (case audioJob s of
              None \<Rightarrow> None
            | Some j \<Rightarrow> if status j = failed then Some (message j, isGenerating s) else None),
         no_audio_section =
           (case audioJob s of None \<Rightarrow> Some (isGenerating s) | Some _ \<Rightarrow> None)\<rparr>)"

text \<open>
  What holds of the panel throughout its life: the interval is set exactly while the job
  last observed is not terminal, and while the panel is loading there is no job and the
  only call outstanding is the one made on mount.
\<close>

definition polling_wanted :: "panel_state \<Rightarrow> bool" where
  "polling_wanted s = (case audioJob s of None \<Rightarrow> False | Some j \<Rightarrow> \<not> terminal (status j))"

definition panel_invariant :: "jsstring \<Rightarrow> panel_state \<Rightarrow> bool" where
  "panel_invariant episodeId s =
     ((interval s \<longleftrightarrow> polling_wanted s)
      \<and> (panel_state.isLoading s \<longrightarrow> audioJob s = None \<and> outstanding s = [LoadStatus episodeId]))"

definition offers_audio :: "panel_output \<Rightarrow> bool" where
  \<comment> \<open>the section with the player and the download button is on the page\<close>
  "offers_audio out = (case out of LoadingCard \<Rightarrow> False | Panel v \<Rightarrow> completed_section v \<noteq> None)"

definition observed_status :: "panel_state \<Rightarrow> job_status option" where
  "observed_status s = map_option status (audioJob s)"

fun is_status_request :: "request \<Rightarrow> bool" where
  "is_status_request (LoadStatus _) = True"
| "is_status_request (PollStatus _) = True"
| "is_status_request (GenerateAudio _) = False"

definition terminal_settled :: "panel_state \<Rightarrow> bool" where
  \<comment> \<open>the job last observed is terminal and no status call is still outstanding\<close>
  "terminal_settled s =
     ((case audioJob s of None \<Rightarrow> False | Some j \<Rightarrow> terminal (status j))
      \<and> \<not> list_ex is_status_request (outstanding s))"

fun new_job_event :: "panel_event \<Rightarrow> bool" where
  \<comment> \<open>the generate call of a retry resolves with its new job\<close>
  "new_job_event (GenerateSettles (Resolved _)) = True"
| "new_job_event _ = False"

fun retry_event :: "panel_event \<Rightarrow> bool" where
  \<comment> \<open>the user's click on the button, and the settling of the call it made\<close>
  "retry_event ClickGenerate = True"
| "retry_event (GenerateSettles _) = True"
| "retry_event _ = False"



text \<open>An episode and job snapshots for the examples.\<close>

definition ep1 :: jsstring where
  "ep1 = js ''ep1''"

definition job_with :: "job_status \<Rightarrow> jsstring \<Rightarrow> AudioJob" where
  "job_with st msg =
     \<lparr>episode_id = ep1, status = st, progress = (if st = complete then 100 else 40),
      message = msg, segment_count = None, duration_seconds = None, output_path = None\<rparr>"


section \<open>Properties of the script viewer\<close>

lemma length_formatScript: "length (formatScript scr) = length (split_newline scr)"
  by (simp add: formatScript_def)

lemma formatScript_nth:
  "i < length (split_newline scr) \<Longrightarrow>
   formatScript scr ! i = (i, formatLine (split_newline scr ! i))"
  by (simp add: formatScript_def nth_enumerate_eq)

lemma split_newline_nonempty: "split_newline s \<noteq> []"
  by (induction s) (auto split: list.splits)

lemma split_newline_no_LF: "l \<in> set (split_newline s) \<Longrightarrow> 0x0A \<notin> set l"
proof (induction s arbitrary: l)
  case Nil
  then show ?case by simp
next
  case (Cons c cs)
  then show ?case
    by (cases "split_newline cs") (auto split: if_splits)
qed

lemma bracketed_decompose:
  "bracketed line \<Longrightarrow> line = cu CHR ''['' # bracket_content line @ [cu CHR '']'']"
proof -
  assume b: "bracketed line"
  then obtain c rest where l: "line = c # rest" and c: "c = cu CHR ''[''"
    by (cases line) (auto simp: bracketed_def)
  from b l have "rest \<noteq> []" by (auto simp: bracketed_def)
  then have "rest = butlast rest @ [last rest]" by simp
  moreover from b l \<open>rest \<noteq> []\<close> have "last rest = cu CHR '']''" by (simp add: bracketed_def)
  ultimately show ?thesis using l c by (simp add: bracket_content_def)
qed

lemma open_bracket_not_label:
  assumes "line = cu CHR ''['' # rest"
  shows "\<not> startsWith line (js ''DOUG:'')" "\<not> startsWith line (js ''**DOUG:**'')"
    "\<not> startsWith line (js ''CLAIRE:'')" "\<not> startsWith line (js ''**CLAIRE:**'')"
  using assms by (simp_all add: startsWith_def js_def cu_def)

text \<open>A line that opens with a bracket reaches the two bracket tests, and no heading test.\<close>

lemma formatLine_open_bracket:
  "formatLine (cu CHR ''['' # rest) =
     (if match_timestamp (cu CHR ''['' # rest) then TimestampDiv (cu CHR ''['' # rest)
      else if match_stage_direction (cu CHR ''['' # rest) then StageDirectionDiv (cu CHR ''['' # rest)
      else if match_horizontal_rule (cu CHR ''['' # rest) then HorizontalRule
      else if trim (cu CHR ''['' # rest) = [] then EmptyLineDiv
      else TextDiv (cu CHR ''['' # rest))"
  using open_bracket_not_label[OF refl, of rest]
  by (simp add: formatLine_def) (simp add: startsWith_def js_def cu_def)

lemma close_bracket_not_dc: "\<not> is_digit_or_colon (cu CHR '']'')"
  by (simp add: is_digit_or_colon_def is_digit_def cu_def)

lemma match_timestamp_run:
  assumes "t \<noteq> []" "list_all is_digit_or_colon t"
  shows "match_timestamp (cu CHR ''['' # t @ cu CHR '']'' # tail)"
proof -
  from assms(2) have all: "\<And>x. x \<in> set t \<Longrightarrow> is_digit_or_colon x"
    by (simp add: list_all_iff)
  have "takeWhile is_digit_or_colon (t @ cu CHR '']'' # tail) = t"
    using all close_bracket_not_dc by simp
  moreover have "dropWhile is_digit_or_colon (t @ cu CHR '']'' # tail) = cu CHR '']'' # tail"
    using all close_bracket_not_dc by simp
  ultimately show ?thesis using assms(1) by (simp add: match_timestamp_def)
qed

lemma mm_ss_run: "mm_ss t \<Longrightarrow> t \<noteq> [] \<and> list_all is_digit_or_colon t \<and> length t = 5"
  by (auto simp: mm_ss_def is_digit_or_colon_def split: list.splits)

lemma hh_mm_ss_run: "hh_mm_ss t \<Longrightarrow> t \<noteq> [] \<and> list_all is_digit_or_colon t \<and> length t = 8"
  using mm_ss_run by (auto simp: hh_mm_ss_def is_digit_or_colon_def split: list.splits)

lemma starts_with_timestamp_match:
  assumes "starts_with_timestamp line"
  shows "match_timestamp line"
proof -
  from assms obtain rest where l: "line = cu CHR ''['' # rest"
    by (cases line) (auto simp: starts_with_timestamp_def)
  from assms l have "(mm_ss (take 5 rest) \<and> prefix [cu CHR '']''] (drop 5 rest))
      \<or> (hh_mm_ss (take 8 rest) \<and> prefix [cu CHR '']''] (drop 8 rest))"
    by (simp add: starts_with_timestamp_def startsWith_def js_def)
  then obtain n where
    run: "take n rest \<noteq> []" "list_all is_digit_or_colon (take n rest)"
    and close: "prefix [cu CHR '']''] (drop n rest)"
    using mm_ss_run hh_mm_ss_run by blast
  from close obtain tail where "drop n rest = cu CHR '']'' # tail"
    by (auto simp: prefix_def)
  then have "rest = take n rest @ cu CHR '']'' # tail"
    by (metis append_take_drop_id)
  then show ?thesis using match_timestamp_run[OF run] l by metis
qed

text \<open>
  Between one pair of brackets the timestamp pattern matches exactly the non-empty runs of
  digits and colons.
\<close>

lemma no_match_timestamp:
  assumes "list_all (\<lambda>c. c \<noteq> cu CHR ''['' \<and> c \<noteq> cu CHR '']'') t" "\<not> digits_and_colons t"
  shows "\<not> match_timestamp (cu CHR ''['' # t @ [cu CHR '']''])"
proof (cases "list_all is_digit_or_colon t")
  case True
  with assms(2) have "t = []" by (simp add: digits_and_colons_def)
  then show ?thesis using close_bracket_not_dc by (simp add: match_timestamp_def)
next
  case False
  then obtain x where x: "x \<in> set t" "\<not> is_digit_or_colon x"
    by (auto simp: list_all_iff)
  then have d: "dropWhile is_digit_or_colon (t @ [cu CHR '']''])
      = dropWhile is_digit_or_colon t @ [cu CHR '']'']"
    by simp
  from x have ne: "dropWhile is_digit_or_colon t \<noteq> []" by auto
  then obtain y ys where y: "dropWhile is_digit_or_colon t = y # ys"
    by (cases "dropWhile is_digit_or_colon t") auto
  then have "y \<in> set t" by (metis list.set_intros(1) set_dropWhileD)
  with assms(1) have "y \<noteq> cu CHR '']''" by (auto simp: list_all_iff)
  then show ?thesis using d y by (simp add: match_timestamp_def)
qed

lemma match_stage_direction_bracketed:
  "match_stage_direction line \<longleftrightarrow> bracketed line \<and> no_line_terminator (bracket_content line)"
  by (auto simp: match_stage_direction_def bracketed_def no_line_terminator_def bracket_content_def)

text \<open>
  Claim C1, as amended. For every line of the script, with the element \<open>formatScript\<close>
  returns for it: a line that starts with \<open>[MM:SS]\<close> or \<open>[HH:MM:SS]\<close> is rendered as a
  timestamp marker; a line fully wrapped in a single bracket pair, with no leading digit,
  whose content is not a non-empty run of digits and colons and holds no line terminator,
  is rendered as a stage direction; there is one element for each line, it has exactly one
  kind, never both timestamp and stage direction; and a line that opens and closes with a
  bracket and has no line terminator in between is a timestamp or a stage direction.
\<close>

theorem formatScript_line_kinds:
  assumes "i < length (split_newline scr)"
  shows "let line = split_newline scr ! i; el = snd (formatScript scr ! i) in
     (starts_with_timestamp line \<longrightarrow> el = TimestampDiv line)
   \<and> (single_bracket_pair line \<and> \<not> leading_digit line
        \<and> \<not> digits_and_colons (bracket_content line)
        \<and> no_line_terminator (bracket_content line)
      \<longrightarrow> el = StageDirectionDiv line)
   \<and> length (formatScript scr) = length (split_newline scr)
   \<and> (\<exists>!k. kind_of el = k)
   \<and> \<not> (kind_of el = Timestamp \<and> kind_of el = StageDirection)
   \<and> (bracketed line \<and> no_line_terminator (bracket_content line)
      \<longrightarrow> kind_of el = Timestamp \<or> kind_of el = StageDirection)"
proof -
  define line where "line = split_newline scr ! i"
  define el where "el = snd (formatScript scr ! i)"
  have el: "el = formatLine line"
    using formatScript_nth[OF assms] by (simp add: el_def line_def)
  have ts: "el = TimestampDiv line" if "starts_with_timestamp line"
  proof -
    from that obtain rest where l: "line = cu CHR ''['' # rest"
      by (cases line) (auto simp: starts_with_timestamp_def)
    from starts_with_timestamp_match[OF that] show ?thesis
      unfolding el l by (simp add: formatLine_open_bracket)
  qed
  have sd: "el = StageDirectionDiv line"
    if "single_bracket_pair line" "\<not> digits_and_colons (bracket_content line)"
      "no_line_terminator (bracket_content line)"
  proof -
    from that(1) have b: "bracketed line"
      and nb: "list_all (\<lambda>c. c \<noteq> cu CHR ''['' \<and> c \<noteq> cu CHR '']'') (bracket_content line)"
      by (simp_all add: single_bracket_pair_def)
    note l = bracketed_decompose[OF b]
    have "\<not> match_timestamp line"
      using no_match_timestamp[OF nb that(2)] l by simp
    moreover have "match_stage_direction line"
      using b that(3) by (simp add: match_stage_direction_bracketed)
    ultimately show ?thesis
      unfolding el by (subst l, subst formatLine_open_bracket) (use l in simp)
  qed
  have br: "kind_of el = Timestamp \<or> kind_of el = StageDirection"
    if "bracketed line" "no_line_terminator (bracket_content line)"
  proof -
    note l = bracketed_decompose[OF that(1)]
    have "match_stage_direction line"
      using that by (simp add: match_stage_direction_bracketed)
    then have "formatLine line = TimestampDiv line \<or> formatLine line = StageDirectionDiv line"
      by (subst l, subst (2) l, subst formatLine_open_bracket, subst formatLine_open_bracket)
         (use l in auto)
    then show ?thesis unfolding el by auto
  qed
  show ?thesis
    unfolding Let_def line_def[symmetric] el_def[symmetric]
    using ts sd br length_formatScript[of scr] by auto
qed

text \<open>
  The theorem at the script whose lines are \<open>[00:15] Cold open\<close> and \<open>[laughs]\<close>: a timestamp
  marker and a stage direction.
\<close>

theorem formatScript_line_kinds_witness:
  "snd (formatScript (js ''[00:15] Cold open'' @ 0x0A # js ''[laughs]'') ! 0)
     = TimestampDiv (js ''[00:15] Cold open'')
   \<and> snd (formatScript (js ''[00:15] Cold open'' @ 0x0A # js ''[laughs]'') ! 1)
     = StageDirectionDiv (js ''[laughs]'')
   \<and> starts_with_timestamp (js ''[00:15] Cold open'')
   \<and> single_bracket_pair (js ''[laughs]'') \<and> \<not> leading_digit (js ''[laughs]'')
   \<and> \<not> digits_and_colons (bracket_content (js ''[laughs]''))
   \<and> no_line_terminator (bracket_content (js ''[laughs]''))
   \<and> bracketed (js ''[laughs]'')"
proof -
  let ?scr = "js ''[00:15] Cold open'' @ 0x0A # js ''[laughs]''"
  have lines: "split_newline ?scr = [js ''[00:15] Cold open'', js ''[laughs]'']"
    by code_simp
  have i0: "0 < length (split_newline ?scr)" and i1: "1 < length (split_newline ?scr)"
    by (simp_all add: lines)
  have ts: "starts_with_timestamp (js ''[00:15] Cold open'')"
    by code_simp
  have sd: "single_bracket_pair (js ''[laughs]'')" "\<not> leading_digit (js ''[laughs]'')"
    "\<not> digits_and_colons (bracket_content (js ''[laughs]''))"
    "no_line_terminator (bracket_content (js ''[laughs]''))" "bracketed (js ''[laughs]'')"
    by code_simp+
  from formatScript_line_kinds[OF i0] formatScript_line_kinds[OF i1] ts sd
  show ?thesis
    by (simp add: lines Let_def)
qed

text \<open>
  Claim C1 as it was stated fails. The line \<open>[:]\<close> is fully wrapped in a single bracket pair
  and has no leading digit, and it is rendered as a timestamp marker, not as a stage
  direction. The line made of \<open>[a\<close>, a carriage return and \<open>b]\<close> is wrapped the same way,
  and it is rendered as plain text, outside both bracketed kinds.
\<close>

theorem formatScript_line_kinds_counterexample:
  "single_bracket_pair (js ''[:]'') \<and> \<not> leading_digit (js ''[:]'')
   \<and> formatScript (js ''[:]'') = [(0, TimestampDiv (js ''[:]''))]
   \<and> bracketed (js ''[a'' @ 0x0D # js ''b]'')
   \<and> single_bracket_pair (js ''[a'' @ 0x0D # js ''b]'')
   \<and> \<not> leading_digit (js ''[a'' @ 0x0D # js ''b]'')
   \<and> formatScript (js ''[a'' @ 0x0D # js ''b]'') = [(0, TextDiv (js ''[a'' @ 0x0D # js ''b]''))]"
  by code_simp

lemma opt_asterisk_twice: "opt_asterisk (opt_asterisk t) = up_to_two_asterisks t"
proof (cases t)
  case Nil
  then show ?thesis by (simp add: opt_asterisk_def up_to_two_asterisks_def js_def)
next
  case (Cons a u)
  then show ?thesis
    by (cases u) (auto simp: opt_asterisk_def up_to_two_asterisks_def js_def)
qed

lemma replace_label_plain:
  assumes "label \<noteq> []" "hd label \<noteq> cu CHR ''*''"
  shows "replace_label label (label @ rest) = dropWhile is_space (up_to_two_asterisks rest)"
proof -
  from assms have "opt_asterisk (label @ rest) = label @ rest"
    by (cases label) (auto simp: opt_asterisk_def)
  then have "opt_asterisk (opt_asterisk (label @ rest)) = label @ rest" by simp
  then show ?thesis
    unfolding replace_label_def Let_def by (simp add: opt_asterisk_twice)
qed

lemma replace_label_emphasis:
  assumes "label \<noteq> []" "hd label \<noteq> cu CHR ''*''"
  shows "replace_label label (js ''**'' @ label @ js ''**'' @ rest) = dropWhile is_space rest"
proof -
  have "opt_asterisk (opt_asterisk (js ''**'' @ label @ js ''**'' @ rest)) = label @ js ''**'' @ rest"
    by (simp add: opt_asterisk_def js_def)
  moreover have "opt_asterisk (opt_asterisk (js ''**'' @ rest)) = rest"
    by (simp add: opt_asterisk_def js_def)
  ultimately show ?thesis
    unfolding replace_label_def Let_def by simp
qed

lemma startsWith_decompose: "startsWith line p \<Longrightarrow> line = p @ drop (length p) line"
  by (auto simp: startsWith_def prefix_def)

lemma labels_plain:
  "js ''DOUG:'' \<noteq> []" "hd (js ''DOUG:'') \<noteq> cu CHR ''*''"
  "js ''CLAIRE:'' \<noteq> []" "hd (js ''CLAIRE:'') \<noteq> cu CHR ''*''"
  by (simp_all add: js_def cu_def)

lemma labels_emphasis:
  "js ''**DOUG:**'' = js ''**'' @ js ''DOUG:'' @ js ''**''"
  "js ''**CLAIRE:**'' = js ''**'' @ js ''CLAIRE:'' @ js ''**''"
  by (simp_all add: js_def)

lemma labels_length:
  "length (js ''DOUG:'') = 5" "length (js ''**DOUG:**'') = 9"
  "length (js ''CLAIRE:'') = 7" "length (js ''**CLAIRE:**'') = 11"
  by (simp_all add: js_def)

lemma formatLine_DOUG:
  assumes "startsWith line (js ''DOUG:'')"
  shows "formatLine line = SpeakerDiv DOUG (dropWhile is_space (up_to_two_asterisks (drop 5 line)))"
proof -
  from startsWith_decompose[OF assms] have "line = js ''DOUG:'' @ drop 5 line"
    by (simp only: labels_length)
  then have "replace_label (js ''DOUG:'') line = dropWhile is_space (up_to_two_asterisks (drop 5 line))"
    using replace_label_plain[OF labels_plain(1,2)] by metis
  with assms show ?thesis by (simp add: formatLine_def)
qed

lemma formatLine_DOUG_emphasis:
  assumes "startsWith line (js ''**DOUG:**'')"
  shows "formatLine line = SpeakerDiv DOUG (dropWhile is_space (drop 9 line))"
proof -
  from startsWith_decompose[OF assms]
  have "line = js ''**'' @ js ''DOUG:'' @ js ''**'' @ drop 9 line"
    by (simp only: labels_length) (simp only: labels_emphasis append_assoc)
  then have "replace_label (js ''DOUG:'') line = dropWhile is_space (drop 9 line)"
    using replace_label_emphasis[OF labels_plain(1,2)] by metis
  with assms show ?thesis by (simp add: formatLine_def)
qed

lemma CLAIRE_not_DOUG:
  "startsWith line (js ''CLAIRE:'') \<or> startsWith line (js ''**CLAIRE:**'') \<Longrightarrow>
   \<not> startsWith line (js ''DOUG:'') \<and> \<not> startsWith line (js ''**DOUG:**'')"
  by (auto simp: startsWith_def prefix_def js_def cu_def)

lemma formatLine_CLAIRE:
  assumes "startsWith line (js ''CLAIRE:'')"
  shows "formatLine line = SpeakerDiv CLAIRE (dropWhile is_space (up_to_two_asterisks (drop 7 line)))"
proof -
  from startsWith_decompose[OF assms] have "line = js ''CLAIRE:'' @ drop 7 line"
    by (simp only: labels_length)
  then have "replace_label (js ''CLAIRE:'') line = dropWhile is_space (up_to_two_asterisks (drop 7 line))"
    using replace_label_plain[OF labels_plain(3,4)] by metis
  with assms CLAIRE_not_DOUG[of line] show ?thesis by (simp add: formatLine_def)
qed

lemma formatLine_CLAIRE_emphasis:
  assumes "startsWith line (js ''**CLAIRE:**'')"
  shows "formatLine line = SpeakerDiv CLAIRE (dropWhile is_space (drop 11 line))"
proof -
  from startsWith_decompose[OF assms]
  have "line = js ''**'' @ js ''CLAIRE:'' @ js ''**'' @ drop 11 line"
    by (simp only: labels_length) (simp only: labels_emphasis append_assoc)
  then have "replace_label (js ''CLAIRE:'') line = dropWhile is_space (drop 11 line)"
    using replace_label_emphasis[OF labels_plain(3,4)] by metis
  with assms CLAIRE_not_DOUG[of line] show ?thesis by (simp add: formatLine_def)
qed

text \<open>
  Claim C2. For every line of the script, with the element \<open>formatScript\<close> returns for it:
  a line that begins with \<open>DOUG:\<close> is rendered as Doug's dialogue, and the text shown is the
  line without the label, without the one or two asterisks that follow the colon, if any,
  and without the white space after them; a line that begins with \<open>**DOUG:**\<close> is rendered
  as Doug's dialogue, and the text shown is the line without that label and the white
  space after it. The same holds for \<open>CLAIRE:\<close> and \<open>**CLAIRE:**\<close>, rendered as Claire's
  dialogue.
\<close>

theorem formatScript_speaker_lines:
  assumes "i < length (split_newline scr)"
  shows "let line = split_newline scr ! i; el = snd (formatScript scr ! i) in
     (startsWith line (js ''DOUG:'') \<longrightarrow>
        el = SpeakerDiv DOUG (dropWhile is_space (up_to_two_asterisks (drop 5 line))))
   \<and> (startsWith line (js ''**DOUG:**'') \<longrightarrow>
        el = SpeakerDiv DOUG (dropWhile is_space (drop 9 line)))
   \<and> (startsWith line (js ''CLAIRE:'') \<longrightarrow>
        el = SpeakerDiv CLAIRE (dropWhile is_space (up_to_two_asterisks (drop 7 line))))
   \<and> (startsWith line (js ''**CLAIRE:**'') \<longrightarrow>
        el = SpeakerDiv CLAIRE (dropWhile is_space (drop 11 line)))"
  using formatScript_nth[OF assms]
  by (simp add: Let_def formatLine_DOUG formatLine_DOUG_emphasis formatLine_CLAIRE
      formatLine_CLAIRE_emphasis)

text \<open>The theorem at two scripts of two lines, one line for each of the four labels.\<close>

theorem formatScript_speaker_lines_witness:
  "snd (formatScript (js ''**DOUG:** Hello.'' @ 0x0A # js ''CLAIRE:  Hi there.'') ! 0)
     = SpeakerDiv DOUG (js ''Hello.'')
   \<and> snd (formatScript (js ''**DOUG:** Hello.'' @ 0x0A # js ''CLAIRE:  Hi there.'') ! 1)
     = SpeakerDiv CLAIRE (js ''Hi there.'')
   \<and> snd (formatScript (js ''DOUG:** Fine.'' @ 0x0A # js ''**CLAIRE:**Good.'') ! 0)
     = SpeakerDiv DOUG (js ''Fine.'')
   \<and> snd (formatScript (js ''DOUG:** Fine.'' @ 0x0A # js ''**CLAIRE:**Good.'') ! 1)
     = SpeakerDiv CLAIRE (js ''Good.'')"
proof -
  let ?a = "js ''**DOUG:** Hello.'' @ 0x0A # js ''CLAIRE:  Hi there.''"
  let ?b = "js ''DOUG:** Fine.'' @ 0x0A # js ''**CLAIRE:**Good.''"
  have a: "split_newline ?a = [js ''**DOUG:** Hello.'', js ''CLAIRE:  Hi there.'']"
    and b: "split_newline ?b = [js ''DOUG:** Fine.'', js ''**CLAIRE:**Good.'']"
    by code_simp+
  have i: "0 < length (split_newline ?a)" "1 < length (split_newline ?a)"
    "0 < length (split_newline ?b)" "1 < length (split_newline ?b)"
    by (simp_all add: a b)
  have starts: "startsWith (js ''**DOUG:** Hello.'') (js ''**DOUG:**'')"
    "startsWith (js ''CLAIRE:  Hi there.'') (js ''CLAIRE:'')"
    "startsWith (js ''DOUG:** Fine.'') (js ''DOUG:'')"
    "startsWith (js ''**CLAIRE:**Good.'') (js ''**CLAIRE:**'')"
    by code_simp+
  have texts: "dropWhile is_space (drop 9 (js ''**DOUG:** Hello.'')) = js ''Hello.''"
    "dropWhile is_space (up_to_two_asterisks (drop 7 (js ''CLAIRE:  Hi there.''))) = js ''Hi there.''"
    "dropWhile is_space (up_to_two_asterisks (drop 5 (js ''DOUG:** Fine.''))) = js ''Fine.''"
    "dropWhile is_space (drop 11 (js ''**CLAIRE:**Good.'')) = js ''Good.''"
    by code_simp+
  from formatScript_speaker_lines[OF i(1)] formatScript_speaker_lines[OF i(2)]
    formatScript_speaker_lines[OF i(3)] formatScript_speaker_lines[OF i(4)] starts texts
  show ?thesis
    by (simp add: a b Let_def)
qed


section \<open>Properties of the generation wizard\<close>

lemma toggle_focus_areas:
  "focus_areas (toggleFocusArea a p) =
     (if a \<in> set (focus_areas p) then filter (\<lambda>b. b \<noteq> a) (focus_areas p) else focus_areas p @ [a])"
  by (simp add: toggleFocusArea_def)

lemma toggle_frame:
  "duration (toggleFocusArea a p) = duration p"
  "humor_level (toggleFocusArea a p) = humor_level p"
  "custom_talking_points (toggleFocusArea a p) = custom_talking_points p"
  by (simp_all add: toggleFocusArea_def)

text \<open>
  Claim C10. For every focus area \<open>a\<close> and every settings value \<open>p\<close>: toggling \<open>a\<close> twice
  gives a list of focus areas with the same elements as that of \<open>p\<close>; after one toggle \<open>a\<close>
  is among the focus areas exactly if it was not before; if it was absent it is appended,
  if it was present every occurrence of it is removed and the other entries stay in
  order; and \<open>duration\<close>, \<open>humor_level\<close> and \<open>custom_talking_points\<close> are unchanged.
\<close>

theorem toggleFocusArea_twice:
  "set (focus_areas (toggleFocusArea a (toggleFocusArea a p))) = set (focus_areas p)
   \<and> (a \<in> set (focus_areas (toggleFocusArea a p)) \<longleftrightarrow> a \<notin> set (focus_areas p))
   \<and> (a \<notin> set (focus_areas p) \<longrightarrow> focus_areas (toggleFocusArea a p) = focus_areas p @ [a])
   \<and> (a \<in> set (focus_areas p) \<longrightarrow>
        focus_areas (toggleFocusArea a p) = filter (\<lambda>b. b \<noteq> a) (focus_areas p)
        \<and> count_list (focus_areas (toggleFocusArea a p)) a = 0)
   \<and> duration (toggleFocusArea a p) = duration p
   \<and> humor_level (toggleFocusArea a p) = humor_level p
   \<and> custom_talking_points (toggleFocusArea a p) = custom_talking_points p"
proof -
  have twice: "set (focus_areas (toggleFocusArea a (toggleFocusArea a p))) = set (focus_areas p)"
    by (auto simp: toggle_focus_areas)
  have once: "a \<in> set (focus_areas (toggleFocusArea a p)) \<longleftrightarrow> a \<notin> set (focus_areas p)"
    by (simp add: toggle_focus_areas)
  have gone: "count_list (filter (\<lambda>b. b \<noteq> a) xs) a = 0" for xs
    by (induction xs) auto
  show ?thesis
    using twice once gone by (simp add: toggle_focus_areas toggle_frame)
qed

text \<open>
  The theorem at \<open>startups\<close>: toggled on from the initial settings, and toggled off and on
  again from a list that holds it twice.
\<close>

theorem toggleFocusArea_twice_witness:
  "focus_areas (toggleFocusArea (js ''startups'') initial_settings) = [js ''startups'']
   \<and> focus_areas (toggleFocusArea (js ''startups'')
        (initial_settings\<lparr>focus_areas := [js ''startups'', js ''utilities'', js ''startups'']\<rparr>))
      = [js ''utilities'']
   \<and> set (focus_areas (toggleFocusArea (js ''startups'') (toggleFocusArea (js ''startups'')
        (initial_settings\<lparr>focus_areas := [js ''startups'', js ''utilities'', js ''startups'']\<rparr>))))
      = {js ''startups'', js ''utilities''}"
proof -
  let ?p = "initial_settings\<lparr>focus_areas := [js ''startups'', js ''utilities'', js ''startups'']\<rparr>"
  have absent: "js ''startups'' \<notin> set (focus_areas initial_settings)"
    by (simp add: initial_settings_def)
  have present: "js ''startups'' \<in> set (focus_areas ?p)"
    by simp
  have f: "filter (\<lambda>b. b \<noteq> js ''startups'') (focus_areas ?p) = [js ''utilities'']"
    by code_simp
  from toggleFocusArea_twice[of "js ''startups''" initial_settings]
    toggleFocusArea_twice[of "js ''startups''" ?p] absent present f
  show ?thesis
    by (simp add: initial_settings_def insert_commute)
qed

lemma slider_values_parse:
  "v \<in> set humor_slider_values \<Longrightarrow> \<exists>n. parseInt v = Num n \<and> 1 \<le> n \<and> n \<le> 5"
proof -
  have "parseInt (js ''1'') = Num 1" "parseInt (js ''2'') = Num 2" "parseInt (js ''3'') = Num 3"
    "parseInt (js ''4'') = Num 4" "parseInt (js ''5'') = Num 5"
    by code_simp+
  then show "v \<in> set humor_slider_values \<Longrightarrow> \<exists>n. parseInt v = Num n \<and> 1 \<le> n \<and> n \<le> 5"
    by (auto simp: humor_slider_values_def)
qed

lemma focus_ids:
  "map fst focusOptions = [js ''utilities'', js ''consumers'', js ''startups'', js ''regulatory'']"
  by (simp add: focusOptions_def)

lemma wizard_invariant_step:
  assumes "settings_invariant p" "offered e"
  shows "settings_invariant (wizard_step e p)"
proof (cases e)
  case (SelectDuration d)
  with assms show ?thesis
    by (cases d) (simp_all add: settings_invariant_def selectDuration_def)
next
  case (ChangeHumor v)
  with assms(2) obtain n where "parseInt v = Num n" "1 \<le> n" "n \<le> 5"
    using slider_values_parse by auto
  with assms(1) ChangeHumor show ?thesis
    by (simp add: settings_invariant_def changeHumor_def)
next
  case (ToggleFocus a)
  with assms(2) have "a \<in> set [js ''utilities'', js ''consumers'', js ''startups'', js ''regulatory'']"
    by (simp only: offered.simps focus_ids)
  with assms(1) ToggleFocus show ?thesis
    unfolding settings_invariant_def
    by (simp add: toggle_focus_areas toggle_frame list_all_iff)
qed

lemma wizard_invariant_initial: "settings_invariant initial_settings"
  by (simp add: settings_invariant_def initial_settings_def)

lemma wizard_invariant_run:
  "settings_invariant p \<Longrightarrow> wizard_run es p = Some q \<Longrightarrow> settings_invariant q"
proof (induction es arbitrary: p)
  case Nil
  then show ?case by simp
next
  case (Cons e es)
  then show ?case
    by (auto split: if_splits intro: wizard_invariant_step)
qed

text \<open>
  Claim C8. Every settings value the wizard's controls can produce from the initial state
  satisfies the invariant: \<open>duration\<close> is short, medium or long, \<open>humor_level\<close> is an integer
  from 1 to 5, and every focus area is one of utilities, consumers, startups and
  regulatory. The initial state is medium, humor 3, no focus areas and no custom talking
  points, and it satisfies the invariant; selecting a duration, moving the humor slider
  (to a value its range of 1 to 5 allows) and toggling one of the four focus areas each
  preserve it. The minutes shown are 10 for short, 20 for medium and 30 for long.
\<close>

theorem wizard_settings_invariant:
  "(wizard_run es initial_settings = Some q \<longrightarrow> settings_invariant q)
   \<and> settings_invariant initial_settings
   \<and> duration initial_settings = medium \<and> humor_level initial_settings = Num 3
   \<and> focus_areas initial_settings = [] \<and> custom_talking_points initial_settings = []
   \<and> (settings_invariant p \<and> offered e \<longrightarrow> settings_invariant (wizard_step e p))
   \<and> target_minutes short = 10 \<and> target_minutes medium = 20 \<and> target_minutes long = 30"
  using wizard_invariant_run[OF wizard_invariant_initial] wizard_invariant_initial
    wizard_invariant_step
  by (auto simp: initial_settings_def target_minutes_def)

text \<open>
  The theorem at the run that selects long, moves the slider to 5 and toggles regulatory,
  and at one move of the slider to 1.
\<close>

theorem wizard_settings_invariant_witness:
  "wizard_run [SelectDuration long, ChangeHumor (js ''5''), ToggleFocus (js ''regulatory'')]
     initial_settings
   = Some \<lparr>duration = long, humor_level = Num 5, focus_areas = [js ''regulatory''],
           custom_talking_points = []\<rparr>
   \<and> settings_invariant \<lparr>duration = long, humor_level = Num 5, focus_areas = [js ''regulatory''],
           custom_talking_points = []\<rparr>
   \<and> offered (ChangeHumor (js ''1''))
   \<and> settings_invariant (wizard_step (ChangeHumor (js ''1'')) initial_settings)"
proof -
  let ?es = "[SelectDuration long, ChangeHumor (js ''5''), ToggleFocus (js ''regulatory'')]"
  let ?q = "\<lparr>duration = long, humor_level = Num 5, focus_areas = [js ''regulatory''],
           custom_talking_points = []\<rparr>"
  have r: "wizard_run ?es initial_settings = Some ?q"
    by code_simp
  have o: "offered (ChangeHumor (js ''1''))"
    by code_simp
  from wizard_settings_invariant[of ?es ?q initial_settings "ChangeHumor (js ''1'')"] r o
  show ?thesis by simp
qed


section \<open>Properties of the episode detail page\<close>

lemma category_card_member:
  "InsightCard h xs \<in> set (category_card h' items) \<longleftrightarrow> items \<noteq> [] \<and> h = h' \<and> xs = take 2 items"
  by (auto simp: category_card_def)

lemma headings_distinct:
  "js ''Utilities'' \<noteq> js ''Consumers''" "js ''Utilities'' \<noteq> js ''Startups''"
  "js ''Utilities'' \<noteq> js ''Regulatory''" "js ''Consumers'' \<noteq> js ''Startups''"
  "js ''Consumers'' \<noteq> js ''Regulatory''" "js ''Startups'' \<noteq> js ''Regulatory''"
  by (simp_all add: js_def cu_def)

lemma insight_cards_member:
  "(\<exists>xs. InsightCard (js ''Utilities'') xs \<in> set (insight_cards i)) \<longleftrightarrow> utilities i \<noteq> []"
  "(\<exists>xs. InsightCard (js ''Consumers'') xs \<in> set (insight_cards i)) \<longleftrightarrow> consumers i \<noteq> []"
  "(\<exists>xs. InsightCard (js ''Startups'') xs \<in> set (insight_cards i)) \<longleftrightarrow> startups i \<noteq> []"
  "(\<exists>xs. InsightCard (js ''Regulatory'') xs \<in> set (insight_cards i)) \<longleftrightarrow> regulatory i \<noteq> []"
  using headings_distinct by (auto simp: insight_cards_def category_card_member)

lemma insight_cards_filter:
  "insight_cards i =
     map (\<lambda>(h, items). InsightCard h (take 2 items))
       (filter (\<lambda>(h, items). items \<noteq> [])
          [(js ''Utilities'', utilities i), (js ''Consumers'', consumers i),
           (js ''Startups'', startups i), (js ''Regulatory'', regulatory i)])"
  by (simp add: insight_cards_def category_card_def)

text \<open>
  Claim C3. For every episode that has been loaded without error and whose \<open>insights\<close> are
  present, the page is the detail view, and its cards are those of the categories whose
  sequence is not empty, in the order utilities, consumers, startups, regulatory, each
  with the first two entries: a category has a card if and only if its sequence is not
  empty. Empty categories are left out, whichever and however many they are.
\<close>

theorem insight_cards_nonempty_categories:
  assumes "\<not> page_state.isLoading s" "\<not> truthy (page_state.error s)"
    and "episode s = Some e" "insights e = Some i"
  shows "EpisodeDetailPage formatDate s =
           EpisodeDetail (Episode.title e) (formatDate (created_at e)) (Some (insight_cards i))
             (formatScript (script e))
     \<and> insight_cards i =
         map (\<lambda>(h, items). InsightCard h (take 2 items))
           (filter (\<lambda>(h, items). items \<noteq> [])
              [(js ''Utilities'', utilities i), (js ''Consumers'', consumers i),
               (js ''Startups'', startups i), (js ''Regulatory'', regulatory i)])
     \<and> ((\<exists>xs. InsightCard (js ''Utilities'') xs \<in> set (insight_cards i)) \<longleftrightarrow> utilities i \<noteq> [])
     \<and> ((\<exists>xs. InsightCard (js ''Consumers'') xs \<in> set (insight_cards i)) \<longleftrightarrow> consumers i \<noteq> [])
     \<and> ((\<exists>xs. InsightCard (js ''Startups'') xs \<in> set (insight_cards i)) \<longleftrightarrow> startups i \<noteq> [])
     \<and> ((\<exists>xs. InsightCard (js ''Regulatory'') xs \<in> set (insight_cards i)) \<longleftrightarrow> regulatory i \<noteq> [])"
proof -
  have "EpisodeDetailPage formatDate s =
           EpisodeDetail (Episode.title e) (formatDate (created_at e)) (Some (insight_cards i))
             (formatScript (script e))"
    using assms by (simp add: EpisodeDetailPage_def)
  then show ?thesis
    using insight_cards_member[of i] insight_cards_filter[of i] by blast
qed

text \<open>
  The theorem at an episode with three utilities entries, one startups entry and the two
  other categories empty: two cards, the first with two entries.
\<close>

theorem insight_cards_nonempty_categories_witness:
  "EpisodeDetailPage (\<lambda>d. d)
     \<lparr>episode = Some
        \<lparr>Episode.title = js ''PJM'', script = js ''DOUG: Hi'',
         insights = Some \<lparr>utilities = [js ''a'', js ''b'', js ''c''], consumers = [],
                          startups = [js ''d''], regulatory = []\<rparr>,
         summary = [], created_at = js ''2024-01-01''\<rparr>,
      isLoading = False, error = None\<rparr>
   = EpisodeDetail (js ''PJM'') (js ''2024-01-01'')
       (Some [InsightCard (js ''Utilities'') [js ''a'', js ''b''],
              InsightCard (js ''Startups'') [js ''d'']])
       [(0, SpeakerDiv DOUG (js ''Hi''))]"
proof -
  let ?i = "\<lparr>utilities = [js ''a'', js ''b'', js ''c''], consumers = [],
            startups = [js ''d''], regulatory = []\<rparr>"
  let ?e = "\<lparr>Episode.title = js ''PJM'', script = js ''DOUG: Hi'', insights = Some ?i,
            summary = [], created_at = js ''2024-01-01''\<rparr>"
  let ?s = "\<lparr>episode = Some ?e, isLoading = False, error = None\<rparr>"
  have pre: "\<not> page_state.isLoading ?s" "\<not> truthy (page_state.error ?s)"
    "episode ?s = Some ?e" "insights ?e = Some ?i"
    by (simp_all add: truthy_def)
  have scr: "formatScript (script ?e) = [(0, SpeakerDiv DOUG (js ''Hi''))]"
    by code_simp
  note th = insight_cards_nonempty_categories[OF pre, of "\<lambda>d. d"]
  from th have cards: "insight_cards ?i =
      [InsightCard (js ''Utilities'') [js ''a'', js ''b''], InsightCard (js ''Startups'') [js ''d'']]"
    by simp
  from th have "EpisodeDetailPage (\<lambda>d. d) ?s =
      EpisodeDetail (Episode.title ?e) (created_at ?e) (Some (insight_cards ?i))
        (formatScript (script ?e))"
    by (rule conjunct1)
  then show ?thesis
    unfolding cards scr by simp
qed


section \<open>Properties of the blog uploader\<close>

lemma uploadFile_calls: "calls (uploadFile up f s) = [UploadBlog f]"
  by (simp add: uploadFile_def split: outcome.splits)

lemma message_truthy: "truthy (Some (js ''Please upload a markdown file (.md)''))"
  "truthy (Some (js ''Please provide both title and content''))"
  by (simp_all add: truthy_def js_def)

lemma handleDrop_rejected:
  assumes "\<not> markdown_name (name f)"
  shows "calls (handleDrop up (f # fs) s) = []"
    "uploader_state.error (state (handleDrop up (f # fs) s))
       = Some (js ''Please upload a markdown file (.md)'')"
    "error_shown (state (handleDrop up (f # fs) s)) = Some (js ''Please upload a markdown file (.md)'')"
  using assms message_truthy by (simp_all add: handleDrop_def markdown_name_def error_shown_def)

lemma handleFileSelect_rejected:
  assumes "\<not> markdown_name (name f)"
  shows "calls (handleFileSelect up (Some (f # fs)) s) = []"
    "uploader_state.error (state (handleFileSelect up (Some (f # fs)) s))
       = Some (js ''Please upload a markdown file (.md)'')"
    "error_shown (state (handleFileSelect up (Some (f # fs)) s))
       = Some (js ''Please upload a markdown file (.md)'')"
  using assms message_truthy
  by (simp_all add: handleFileSelect_def markdown_name_def error_shown_def)

lemma handleDrop_calls:
  "calls (handleDrop up files s) =
     (case files of [] \<Rightarrow> [] | f # _ \<Rightarrow> if markdown_name (name f) then [UploadBlog f] else [])"
  by (simp add: handleDrop_def markdown_name_def uploadFile_calls split: list.splits)

lemma handleFileSelect_calls:
  "calls (handleFileSelect up files s) =
     (case files of None \<Rightarrow> [] | Some [] \<Rightarrow> []
      | Some (f # _) \<Rightarrow> if markdown_name (name f) then [UploadBlog f] else [])"
  by (simp add: handleFileSelect_def markdown_name_def uploadFile_calls
      split: list.splits option.splits)

lemma first_file_only:
  "handleDrop up (f # fs) s = handleDrop up [f] s"
  "handleFileSelect up (Some (f # fs)) s = handleFileSelect up (Some [f]) s"
  by (simp_all add: handleDrop_def handleFileSelect_def)

text \<open>
  Claim C9, as amended. The handlers read the first file of a drop or a selection and no
  other: the rest of the list changes nothing. If the name of that first file ends neither
  with \<open>.md\<close> nor with \<open>.markdown\<close>, the handler makes no call to the backend and the
  message \<open>Please upload a markdown file (.md)\<close> is shown. Whatever the event, every
  upload call that \<open>handleDrop\<close> or \<open>handleFileSelect\<close> makes is for the first file of the
  event, whose name ends with \<open>.md\<close> or \<open>.markdown\<close>, and they make no other call.
\<close>

theorem upload_only_markdown_names:
  "(\<not> endsWith (name f) (js ''.md'') \<and> \<not> endsWith (name f) (js ''.markdown'') \<longrightarrow>
      calls (handleDrop up (f # fs) s) = []
      \<and> error_shown (state (handleDrop up (f # fs) s)) = Some (js ''Please upload a markdown file (.md)'')
      \<and> calls (handleFileSelect up (Some (f # fs)) s) = []
      \<and> error_shown (state (handleFileSelect up (Some (f # fs)) s))
          = Some (js ''Please upload a markdown file (.md)''))
   \<and> (\<forall>g. UploadBlog g \<in> set (calls (handleDrop up files s)) \<longrightarrow>
          files \<noteq> [] \<and> g = hd files
          \<and> (endsWith (name g) (js ''.md'') \<or> endsWith (name g) (js ''.markdown'')))
   \<and> (\<forall>g. UploadBlog g \<in> set (calls (handleFileSelect up sel s)) \<longrightarrow>
          (\<exists>gs. sel = Some (g # gs))
          \<and> (endsWith (name g) (js ''.md'') \<or> endsWith (name g) (js ''.markdown'')))
   \<and> (\<forall>t c. CreateBlog t c \<notin> set (calls (handleDrop up files s))
            \<and> CreateBlog t c \<notin> set (calls (handleFileSelect up sel s)))
   \<and> handleDrop up (f # fs) s = handleDrop up [f] s
   \<and> handleFileSelect up (Some (f # fs)) s = handleFileSelect up (Some [f]) s"
proof -
  have rej: "\<not> endsWith (name f) (js ''.md'') \<and> \<not> endsWith (name f) (js ''.markdown'')
      \<Longrightarrow> \<not> markdown_name (name f)"
    by (simp add: markdown_name_def)
  have d: "UploadBlog g \<in> set (calls (handleDrop up files s)) \<Longrightarrow>
      files \<noteq> [] \<and> g = hd files \<and> markdown_name (name g)" for g
    by (auto simp: handleDrop_calls split: list.splits if_splits)
  have fs: "UploadBlog g \<in> set (calls (handleFileSelect up sel s)) \<Longrightarrow>
      (\<exists>gs. sel = Some (g # gs)) \<and> markdown_name (name g)" for g
    by (auto simp: handleFileSelect_calls split: list.splits option.splits if_splits)
  have c: "CreateBlog t c \<notin> set (calls (handleDrop up files s))
      \<and> CreateBlog t c \<notin> set (calls (handleFileSelect up sel s))" for t c
    by (auto simp: handleDrop_calls handleFileSelect_calls split: list.splits option.splits)
  have main: "(\<not> endsWith (name f) (js ''.md'') \<and> \<not> endsWith (name f) (js ''.markdown'') \<longrightarrow>
      calls (handleDrop up (f # fs) s) = []
      \<and> error_shown (state (handleDrop up (f # fs) s)) = Some (js ''Please upload a markdown file (.md)'')
      \<and> calls (handleFileSelect up (Some (f # fs)) s) = []
      \<and> error_shown (state (handleFileSelect up (Some (f # fs)) s))
          = Some (js ''Please upload a markdown file (.md)''))
   \<and> (\<forall>g. UploadBlog g \<in> set (calls (handleDrop up files s)) \<longrightarrow>
          files \<noteq> [] \<and> g = hd files
          \<and> (endsWith (name g) (js ''.md'') \<or> endsWith (name g) (js ''.markdown'')))
   \<and> (\<forall>g. UploadBlog g \<in> set (calls (handleFileSelect up sel s)) \<longrightarrow>
          (\<exists>gs. sel = Some (g # gs))
          \<and> (endsWith (name g) (js ''.md'') \<or> endsWith (name g) (js ''.markdown'')))
   \<and> (\<forall>t c. CreateBlog t c \<notin> set (calls (handleDrop up files s))
            \<and> CreateBlog t c \<notin> set (calls (handleFileSelect up sel s)))"
    using handleDrop_rejected(1,3)[OF rej] handleFileSelect_rejected(1,3)[OF rej] d fs c
    unfolding markdown_name_def by blast
  from main first_file_only[of up f fs s] show ?thesis
    by simp
qed

text \<open>The theorem at a dropped file named \<open>notes.txt\<close>.\<close>

theorem upload_only_markdown_names_witness:
  "calls (handleDrop (\<lambda>f. Resolved (name f))
            [\<lparr>name = js ''notes.txt'', text_of = js ''hello''\<rparr>]
            \<lparr>isDragging = True, isLoading = False, error = None, pasteMode = False,
             title = [], content = []\<rparr>) = []
   \<and> error_shown (state (handleDrop (\<lambda>f. Resolved (name f))
            [\<lparr>name = js ''notes.txt'', text_of = js ''hello''\<rparr>]
            \<lparr>isDragging = True, isLoading = False, error = None, pasteMode = False,
             title = [], content = []\<rparr>)) = Some (js ''Please upload a markdown file (.md)'')
   \<and> \<not> endsWith (js ''notes.txt'') (js ''.md'')
   \<and> \<not> endsWith (js ''notes.txt'') (js ''.markdown'')"
proof -
  let ?up = "\<lambda>f::File. (Resolved (name f) :: jsstring outcome)"
  let ?txt = "\<lparr>name = js ''notes.txt'', text_of = js ''hello''\<rparr>"
  let ?s = "\<lparr>isDragging = True, isLoading = False, error = None, pasteMode = False,
             title = [], content = []\<rparr>"
  have no: "\<not> endsWith (js ''notes.txt'') (js ''.md'')"
    "\<not> endsWith (js ''notes.txt'') (js ''.markdown'')"
    by code_simp+
  have n: "name ?txt = js ''notes.txt''"
    by simp
  from upload_only_markdown_names[of ?txt ?up "[]" ?s, THEN conjunct1, unfolded n] no
  show ?thesis
    by blast
qed

text \<open>
  Claim C9 as it was stated fails for a file that is not the first of the event. In a
  drop of \<open>post.md\<close> and \<open>notes.txt\<close>, the second file's name ends neither with \<open>.md\<close> nor
  with \<open>.markdown\<close>, and yet an upload call is made, for the first file, and no message is
  shown.
\<close>

theorem upload_only_markdown_names_counterexample:
  "\<not> endsWith (js ''notes.txt'') (js ''.md'')
   \<and> \<not> endsWith (js ''notes.txt'') (js ''.markdown'')
   \<and> calls (handleDrop (\<lambda>f. Resolved (name f))
        [\<lparr>name = js ''post.md'', text_of = js ''# Post''\<rparr>,
         \<lparr>name = js ''notes.txt'', text_of = js ''hello''\<rparr>]
        \<lparr>isDragging = True, isLoading = False, error = None, pasteMode = False,
         title = [], content = []\<rparr>)
     = [UploadBlog \<lparr>name = js ''post.md'', text_of = js ''# Post''\<rparr>]
   \<and> error_shown (state (handleDrop (\<lambda>f. Resolved (name f))
        [\<lparr>name = js ''post.md'', text_of = js ''# Post''\<rparr>,
         \<lparr>name = js ''notes.txt'', text_of = js ''hello''\<rparr>]
        \<lparr>isDragging = True, isLoading = False, error = None, pasteMode = False,
         title = [], content = []\<rparr>))
     = None"
proof -
  have e: "\<not> endsWith (js ''notes.txt'') (js ''.md'')"
    "\<not> endsWith (js ''notes.txt'') (js ''.markdown'')"
    "endsWith (js ''post.md'') (js ''.md'')"
    by code_simp+
  then show ?thesis
    by (simp add: handleDrop_def uploadFile_def error_shown_def truthy_def)
qed

lemma handlePasteSubmit_calls:
  "calls (handlePasteSubmit create s) =
     (if trim (uploader_state.title s) = [] \<or> trim (content s) = [] then []
      else [CreateBlog (uploader_state.title s) (content s)])"
  by (simp add: handlePasteSubmit_def split: outcome.splits)

text \<open>
  Claim C6. For every submission in paste mode: if the title or the content trims to the
  empty string, \<open>handlePasteSubmit\<close> makes no call to the backend, hands no blog on, and
  only sets the error, which is shown, to \<open>Please provide both title and content\<close>. It
  makes a call only when both trim to something non-empty, and then the call is the one
  creation request with the title and the content as typed.
\<close>

theorem paste_submit_validation:
  "(trim (uploader_state.title s) = [] \<or> trim (content s) = [] \<longrightarrow>
      calls (handlePasteSubmit create s) = []
      \<and> uploaded (handlePasteSubmit create s) = []
      \<and> state (handlePasteSubmit create s)
          = s\<lparr>uploader_state.error := Some (js ''Please provide both title and content'')\<rparr>
      \<and> error_shown (state (handlePasteSubmit create s))
          = Some (js ''Please provide both title and content''))
   \<and> (calls (handlePasteSubmit create s) \<noteq> [] \<longrightarrow>
        trim (uploader_state.title s) \<noteq> [] \<and> trim (content s) \<noteq> []
        \<and> calls (handlePasteSubmit create s) = [CreateBlog (uploader_state.title s) (content s)])
   \<and> (trim (uploader_state.title s) \<noteq> [] \<and> trim (content s) \<noteq> [] \<longrightarrow>
        calls (handlePasteSubmit create s) = [CreateBlog (uploader_state.title s) (content s)])"
  using message_truthy(2)
  by (auto simp: handlePasteSubmit_calls) (auto simp: handlePasteSubmit_def error_shown_def)

text \<open>The theorem at a title of two spaces, and at the title \<open>PJM\<close>.\<close>

theorem paste_submit_validation_witness:
  "calls (handlePasteSubmit (\<lambda>t c. Resolved t)
     \<lparr>isDragging = False, isLoading = False, error = None, pasteMode = True,
      title = js ''  '', content = js ''# Load growth''\<rparr>) = []
   \<and> error_shown (state (handlePasteSubmit (\<lambda>t c. Resolved t)
     \<lparr>isDragging = False, isLoading = False, error = None, pasteMode = True,
      title = js ''  '', content = js ''# Load growth''\<rparr>))
       = Some (js ''Please provide both title and content'')
   \<and> calls (handlePasteSubmit (\<lambda>t c. Resolved t)
     \<lparr>isDragging = False, isLoading = False, error = None, pasteMode = True,
      title = js ''PJM'', content = js ''# Load growth''\<rparr>)
       = [CreateBlog (js ''PJM'') (js ''# Load growth'')]
   \<and> trim (js ''  '') = [] \<and> trim (js ''PJM'') \<noteq> [] \<and> trim (js ''# Load growth'') \<noteq> []"
proof -
  let ?create = "\<lambda>(t::jsstring) (c::jsstring). (Resolved t :: jsstring outcome)"
  let ?blank = "\<lparr>isDragging = False, isLoading = False, error = None, pasteMode = True,
      title = js ''  '', content = js ''# Load growth''\<rparr>"
  let ?full = "\<lparr>isDragging = False, isLoading = False, error = None, pasteMode = True,
      title = js ''PJM'', content = js ''# Load growth''\<rparr>"
  have t: "trim (js ''  '') = []" "trim (js ''PJM'') \<noteq> []" "trim (js ''# Load growth'') \<noteq> []"
    by code_simp+
  have sel: "uploader_state.title ?blank = js ''  ''" "content ?blank = js ''# Load growth''"
    "uploader_state.title ?full = js ''PJM''" "content ?full = js ''# Load growth''"
    by simp_all
  note blank = paste_submit_validation[of ?blank ?create, THEN conjunct1, unfolded sel]
  note full = paste_submit_validation[of ?full ?create, THEN conjunct2, THEN conjunct2, unfolded sel]
  from blank full t show ?thesis
    by blast
qed


section \<open>Properties of the audio panel\<close>

lemma polling_effect_simps:
  "interval (polling_effect s) = polling_wanted s"
  "audioJob (polling_effect s) = audioJob s"
  "panel_state.isLoading (polling_effect s) = panel_state.isLoading s"
  "isGenerating (polling_effect s) = isGenerating s"
  "panel_state.error (polling_effect s) = panel_state.error s"
  "outstanding (polling_effect s) = outstanding s"
  "polling_wanted (polling_effect s) = polling_wanted s"
  by (simp_all add: polling_effect_def polling_wanted_def)

lemma panel_invariant_mounted: "panel_invariant ep (mounted ep)"
  by (simp add: panel_invariant_def mounted_def polling_wanted_def)

lemma invariant_not_loading:
  assumes "panel_invariant ep s" "r \<in> set (outstanding s)" "r \<noteq> LoadStatus ep"
  shows "\<not> panel_state.isLoading s"
  using assms by (auto simp: panel_invariant_def)

lemma panel_invariant_step:
  assumes inv: "panel_invariant ep s" and en: "enabled ep e s"
  shows "panel_invariant ep (step ep e s)"
proof (cases e)
  case IntervalFires
  with en have "interval s" by simp
  with inv have "\<not> panel_state.isLoading s"
    by (auto simp: panel_invariant_def polling_wanted_def)
  with inv IntervalFires show ?thesis
    by (simp add: panel_invariant_def polling_wanted_def)
next
  case (StatusSettles r answer)
  with en have r: "r \<in> set (outstanding s)" "r = LoadStatus ep \<or> r = PollStatus ep"
    by simp_all
  have nl: "r \<noteq> LoadStatus ep \<Longrightarrow> \<not> panel_state.isLoading s"
    using invariant_not_loading[OF inv r(1)] .
  show ?thesis
  proof (cases answer)
    case (Resolved st)
    with StatusSettles inv nl show ?thesis
      by (auto simp: panel_invariant_def checkAudioStatus_def polling_effect_simps
          polling_wanted_def polling_effect_def split: option.splits)
  next
    case (Rejected x)
    with StatusSettles inv nl show ?thesis
      by (auto simp: panel_invariant_def checkAudioStatus_def polling_wanted_def)
  qed
next
  case ClickGenerate
  with en have "\<not> panel_state.isLoading s"
    by (simp add: generate_button_enabled_def)
  with inv ClickGenerate show ?thesis
    by (simp add: panel_invariant_def polling_wanted_def)
next
  case (GenerateSettles answer)
  with en have "GenerateAudio ep \<in> set (outstanding s)" by simp
  then have nl: "\<not> panel_state.isLoading s"
    using invariant_not_loading[OF inv] by blast
  show ?thesis
  proof (cases answer)
    case (Resolved job)
    with GenerateSettles inv nl show ?thesis
      by (simp add: panel_invariant_def polling_effect_def polling_wanted_def)
  next
    case (Rejected x)
    with GenerateSettles inv nl show ?thesis
      by (simp add: panel_invariant_def polling_wanted_def)
  qed
qed

lemma panel_invariant_run:
  "panel_invariant ep s \<Longrightarrow> run ep es s = Some s' \<Longrightarrow> panel_invariant ep s'"
proof (induction es arbitrary: s)
  case Nil
  then show ?case by simp
next
  case (Cons e es)
  then show ?case
    by (auto split: if_splits intro: panel_invariant_step)
qed

lemma reachable_invariant: "run ep es (mounted ep) = Some s \<Longrightarrow> panel_invariant ep s"
  using panel_invariant_run[OF panel_invariant_mounted] .

text \<open>The states of the examples: the first answer reports a failed, or a complete, job.\<close>

lemma run_load_failed:
  "run ep1 [StatusSettles (LoadStatus ep1) (Resolved (Some (job_with failed (js ''TTS quota exceeded''))))]
     (mounted ep1)
   = Some \<lparr>audioJob = Some (job_with failed (js ''TTS quota exceeded'')), isLoading = False,
           isGenerating = False, error = None, interval = False, outstanding = []\<rparr>"
  by (simp add: mounted_def checkAudioStatus_def polling_effect_def terminal_def job_with_def)

lemma run_load_complete:
  "run ep1 [StatusSettles (LoadStatus ep1) (Resolved (Some (job_with complete (js ''Done''))))]
     (mounted ep1)
   = Some \<lparr>audioJob = Some (job_with complete (js ''Done'')), isLoading = False,
           isGenerating = False, error = None, interval = False, outstanding = []\<rparr>"
  by (simp add: mounted_def checkAudioStatus_def polling_effect_def terminal_def job_with_def)

text \<open>
  Claim C7. In every state the panel can reach, the section with the audio player and the
  download button is on the page if and only if the status of the job last observed is
  \<open>complete\<close>; it is not there while that status is pending, generating, processing or
  failed, nor while there is no job; and when it is there, the player and the button use
  the download URL of the panel's episode.
\<close>

theorem audio_offered_iff_complete:
  assumes "run ep es (mounted ep) = Some s"
  shows "(offers_audio (AudioPanel ep s) \<longleftrightarrow> observed_status s = Some complete)
     \<and> (observed_status s = Some pending \<or> observed_status s = Some generating
          \<or> observed_status s = Some processing \<or> observed_status s = Some failed
          \<or> observed_status s = None
        \<longrightarrow> \<not> offers_audio (AudioPanel ep s))
     \<and> (\<forall>j. audioJob s = Some j \<and> status j = complete \<longrightarrow>
          (\<exists>v. AudioPanel ep s = Panel v
              \<and> completed_section v = Some (nonzero (duration_seconds j), ep)))"
proof -
  from reachable_invariant[OF assms]
  have nl: "audioJob s \<noteq> None \<Longrightarrow> \<not> panel_state.isLoading s"
    by (auto simp: panel_invariant_def)
  show ?thesis
  proof (cases "audioJob s")
    case None
    then show ?thesis
      by (simp add: offers_audio_def observed_status_def AudioPanel_def)
  next
    case (Some j)
    with nl have "\<not> panel_state.isLoading s" by simp
    with Some show ?thesis
      by (auto simp: offers_audio_def observed_status_def AudioPanel_def)
  qed
qed

text \<open>
  The theorem at the state after the first answer reports a complete job, and at the one
  after it reports a failed job.
\<close>

theorem audio_offered_iff_complete_witness:
  "offers_audio (AudioPanel ep1
     \<lparr>audioJob = Some (job_with complete (js ''Done'')), isLoading = False,
      isGenerating = False, error = None, interval = False, outstanding = []\<rparr>)
   \<and> \<not> offers_audio (AudioPanel ep1
     \<lparr>audioJob = Some (job_with failed (js ''TTS quota exceeded'')), isLoading = False,
      isGenerating = False, error = None, interval = False, outstanding = []\<rparr>)"
proof -
  let ?c = "\<lparr>audioJob = Some (job_with complete (js ''Done'')), isLoading = False,
      isGenerating = False, error = None, interval = False, outstanding = []\<rparr>"
  let ?f = "\<lparr>audioJob = Some (job_with failed (js ''TTS quota exceeded'')), isLoading = False,
      isGenerating = False, error = None, interval = False, outstanding = []\<rparr>"
  have c: "observed_status ?c = Some complete"
    by (simp add: observed_status_def job_with_def)
  have f: "observed_status ?f = Some failed"
    by (simp add: observed_status_def job_with_def)
  from audio_offered_iff_complete[OF run_load_complete] c
  have "offers_audio (AudioPanel ep1 ?c)" by blast
  moreover from audio_offered_iff_complete[OF run_load_failed] f
  have "\<not> offers_audio (AudioPanel ep1 ?f)" by blast
  ultimately show ?thesis by blast
qed
















lemma interval_iff:
  assumes "panel_invariant ep s"
  shows "enabled ep IntervalFires s \<longleftrightarrow> (\<exists>j. audioJob s = Some j \<and> \<not> terminal (status j))"
  using assms by (auto simp: panel_invariant_def polling_wanted_def split: option.splits)

lemma list_ex_remove1: "list_ex P (remove1 x xs) \<Longrightarrow> list_ex P xs"
  by (metis list_ex_iff notin_set_remove1)

text \<open>
  From a state where the job is terminal and no status call is outstanding, every enabled
  event but the arrival of a retry's new job is part of a retry and changes neither the
  job nor that condition.
\<close>

lemma settled_step:
  assumes inv: "panel_invariant ep s" and ts: "terminal_settled s"
    and en: "enabled ep e s" and old: "\<not> new_job_event e"
  shows "retry_event e \<and> audioJob (step ep e s) = audioJob s \<and> terminal_settled (step ep e s)"
proof (cases e)
  case IntervalFires
  with en inv have "polling_wanted s" by (simp add: panel_invariant_def)
  with ts show ?thesis
    by (auto simp: terminal_settled_def polling_wanted_def split: option.splits)
next
  case (StatusSettles r answer)
  with en have "r \<in> set (outstanding s)" "is_status_request r" by auto
  then have "list_ex is_status_request (outstanding s)"
    by (auto simp: list_ex_iff)
  with ts show ?thesis by (simp add: terminal_settled_def)
next
  case ClickGenerate
  with ts show ?thesis
    by (simp add: terminal_settled_def)
next
  case (GenerateSettles answer)
  with old obtain x where x: "answer = Rejected x"
    by (cases answer) auto
  have au: "audioJob (step ep e s) = audioJob s"
    and out: "outstanding (step ep e s) = remove1 (GenerateAudio ep) (outstanding s)"
    unfolding GenerateSettles x by simp_all
  from ts have n: "\<not> list_ex is_status_request (outstanding s)"
    and t: "case audioJob s of None \<Rightarrow> False | Some j \<Rightarrow> terminal (status j)"
    by (simp_all add: terminal_settled_def)
  from n have "\<not> list_ex is_status_request (remove1 (GenerateAudio ep) (outstanding s))"
    using list_ex_remove1[of is_status_request "GenerateAudio ep" "outstanding s"]
    by (rule contrapos_nn)
  with t have "terminal_settled (step ep e s)"
    by (simp only: terminal_settled_def au out simp_thms)
  with au show ?thesis
    by (simp only: GenerateSettles retry_event.simps simp_thms)
qed

lemma settled_run:
  assumes "panel_invariant ep s" "terminal_settled s" "run ep es s = Some s'"
    "\<not> list_ex new_job_event es"
  shows "list_all retry_event es \<and> audioJob s' = audioJob s \<and> terminal_settled s'"
  using assms
proof (induction es arbitrary: s)
  case Nil
  then show ?case by simp
next
  case (Cons e es)
  from Cons.prems(3) have en: "enabled ep e s" and rest: "run ep es (step ep e s) = Some s'"
    by (auto split: if_splits)
  from Cons.prems(4) have old: "\<not> new_job_event e" "\<not> list_ex new_job_event es"
    by simp_all
  note st = settled_step[OF Cons.prems(1,2) en old(1)]
  from Cons.IH[OF panel_invariant_step[OF Cons.prems(1) en] _ rest old(2)] st
  show ?case by simp
qed

lemma step_outstanding_generate:
  assumes "enabled ep e s" "e \<noteq> ClickGenerate" "GenerateAudio ep \<notin> set (outstanding s)"
  shows "GenerateAudio ep \<notin> set (outstanding (step ep e s))"
proof (cases e)
  case (StatusSettles r answer)
  have "outstanding (step ep e s) = remove1 r (outstanding s)"
    unfolding StatusSettles
    by (auto simp: checkAudioStatus_def polling_effect_def Let_def
        split: outcome.splits option.splits)
  with assms(3) show ?thesis
    by (metis notin_set_remove1)
qed (use assms in auto)

lemma no_click_no_generate:
  assumes "run ep es s = Some s'" "ClickGenerate \<notin> set es"
    "GenerateAudio ep \<notin> set (outstanding s)"
  shows "GenerateAudio ep \<notin> set (outstanding s')"
  using assms
proof (induction es arbitrary: s)
  case Nil
  then show ?case by simp
next
  case (Cons e es)
  from Cons.prems(1) have en: "enabled ep e s" and rest: "run ep es (step ep e s) = Some s'"
    by (auto split: if_splits)
  from Cons.prems(2) have "e \<noteq> ClickGenerate" "ClickGenerate \<notin> set es" by auto
  with Cons.IH[OF rest] step_outstanding_generate[OF en _ Cons.prems(3)]
  show ?case by blast
qed

text \<open>
  Claim C4, as amended. In every state the panel can reach: the interval can fire, and so
  issue a status poll, exactly while the job last observed is not terminal. Once a
  snapshot with status \<open>complete\<close> or \<open>failed\<close> is the one observed and no status call
  made earlier is still outstanding, then, until the generate call of a retry resolves
  with a new job, every event is the user's click on the retry button or the settling of
  the call it made, no poll is issued, and the job observed stays the same. Without a
  click of the user no generate call is ever outstanding.
\<close>

theorem polling_stops_at_terminal:
  assumes "run ep es (mounted ep) = Some s"
  shows "(enabled ep IntervalFires s \<longleftrightarrow> (\<exists>j. audioJob s = Some j \<and> \<not> terminal (status j)))
     \<and> (terminal_settled s \<and> run ep es' s = Some s' \<and> \<not> list_ex new_job_event es' \<longrightarrow>
          list_all retry_event es' \<and> IntervalFires \<notin> set es'
          \<and> audioJob s' = audioJob s \<and> terminal_settled s'
          \<and> \<not> enabled ep IntervalFires s')
     \<and> (ClickGenerate \<notin> set es \<longrightarrow> GenerateAudio ep \<notin> set (outstanding s))"
proof -
  note inv = reachable_invariant[OF assms]
  have a: "enabled ep IntervalFires s \<longleftrightarrow> (\<exists>j. audioJob s = Some j \<and> \<not> terminal (status j))"
    using interval_iff[OF inv] .
  have b: "list_all retry_event es' \<and> IntervalFires \<notin> set es'
          \<and> audioJob s' = audioJob s \<and> terminal_settled s' \<and> \<not> enabled ep IntervalFires s'"
    if "terminal_settled s" "run ep es' s = Some s'" "\<not> list_ex new_job_event es'"
  proof -
    note r = settled_run[OF inv that]
    from r have "IntervalFires \<notin> set es'"
      by (auto simp: list_all_iff)
    moreover have "\<not> enabled ep IntervalFires s'"
      using interval_iff[OF panel_invariant_run[OF inv that(2)]] r
      by (auto simp: terminal_settled_def)
    ultimately show ?thesis using r by simp
  qed
  have c: "GenerateAudio ep \<notin> set (outstanding s)" if "ClickGenerate \<notin> set es"
    using no_click_no_generate[OF assms that] by (simp add: mounted_def)
  from a b c show ?thesis by blast
qed

text \<open>
  The theorem at the state after the first answer reports a failed job, followed by a
  click on the retry button whose generate call is rejected.
\<close>

theorem polling_stops_at_terminal_witness:
  "terminal_settled
     \<lparr>audioJob = Some (job_with failed (js ''TTS quota exceeded'')), isLoading = False,
      isGenerating = False, error = None, interval = False, outstanding = []\<rparr>
   \<and> run ep1 [ClickGenerate, GenerateSettles (Rejected OtherValue)]
       \<lparr>audioJob = Some (job_with failed (js ''TTS quota exceeded'')), isLoading = False,
        isGenerating = False, error = None, interval = False, outstanding = []\<rparr>
     = Some \<lparr>audioJob = Some (job_with failed (js ''TTS quota exceeded'')), isLoading = False,
             isGenerating = False, error = Some (js ''Failed to start audio generation''),
             interval = False, outstanding = []\<rparr>
   \<and> \<not> enabled ep1 IntervalFires
       \<lparr>audioJob = Some (job_with failed (js ''TTS quota exceeded'')), isLoading = False,
        isGenerating = False, error = Some (js ''Failed to start audio generation''),
        interval = False, outstanding = []\<rparr>
   \<and> terminal_settled
       \<lparr>audioJob = Some (job_with failed (js ''TTS quota exceeded'')), isLoading = False,
        isGenerating = False, error = Some (js ''Failed to start audio generation''),
        interval = False, outstanding = []\<rparr>
   \<and> GenerateAudio ep1 \<notin> set (outstanding
       \<lparr>audioJob = Some (job_with failed (js ''TTS quota exceeded'')), isLoading = False,
        isGenerating = False, error = None, interval = False, outstanding = []\<rparr>)"
proof -
  let ?f = "\<lparr>audioJob = Some (job_with failed (js ''TTS quota exceeded'')), isLoading = False,
      isGenerating = False, error = None, interval = False, outstanding = []\<rparr>"
  let ?g = "\<lparr>audioJob = Some (job_with failed (js ''TTS quota exceeded'')), isLoading = False,
      isGenerating = False, error = Some (js ''Failed to start audio generation''),
      interval = False, outstanding = []\<rparr>"
  let ?es = "[ClickGenerate, GenerateSettles (Rejected OtherValue)]"
  have ts: "terminal_settled ?f"
    by (simp add: terminal_settled_def terminal_def job_with_def)
  have r: "run ep1 ?es ?f = Some ?g"
    by (simp add: generate_button_enabled_def rejection_message_def job_with_def)
  have old: "\<not> list_ex new_job_event ?es"
    by simp
  have nc: "ClickGenerate \<notin> set [StatusSettles (LoadStatus ep1)
      (Resolved (Some (job_with failed (js ''TTS quota exceeded''))))]"
    by simp
  note th = polling_stops_at_terminal[OF run_load_failed, of ?es ?g]
  from th ts r old nc show ?thesis
    by blast
qed

text \<open>
  Claim C4 as it was stated fails when answers arrive late. The first answer reports a
  job that is processing; the interval fires twice before either poll is answered; the
  answer that arrives first reports \<open>complete\<close>, so a terminal snapshot is observed and the
  interval is cleared; the answer that arrives after it reports \<open>processing\<close>, and the
  interval is set again and fires: a poll is issued after a terminal snapshot was
  observed, with no click of the user in the whole run.
\<close>

theorem polling_stops_at_terminal_counterexample:
  "map_option observed_status
     (run ep1
        [StatusSettles (LoadStatus ep1) (Resolved (Some (job_with processing (js ''Joining'')))),
         IntervalFires,
         IntervalFires,
         StatusSettles (PollStatus ep1) (Resolved (Some (job_with complete (js ''Done''))))]
        (mounted ep1))
     = Some (Some complete)
   \<and> map_option interval
     (run ep1
        [StatusSettles (LoadStatus ep1) (Resolved (Some (job_with processing (js ''Joining'')))),
         IntervalFires,
         IntervalFires,
         StatusSettles (PollStatus ep1) (Resolved (Some (job_with complete (js ''Done''))))]
        (mounted ep1))
     = Some False
   \<and> map_option outstanding
     (run ep1
        [StatusSettles (LoadStatus ep1) (Resolved (Some (job_with processing (js ''Joining'')))),
         IntervalFires,
         IntervalFires,
         StatusSettles (PollStatus ep1) (Resolved (Some (job_with complete (js ''Done'')))),
         StatusSettles (PollStatus ep1) (Resolved (Some (job_with processing (js ''Joining'')))),
         IntervalFires]
        (mounted ep1))
     = Some [PollStatus ep1]
   \<and> ClickGenerate \<notin> set
        [StatusSettles (LoadStatus ep1) (Resolved (Some (job_with processing (js ''Joining'')))),
         IntervalFires,
         IntervalFires,
         StatusSettles (PollStatus ep1) (Resolved (Some (job_with complete (js ''Done'')))),
         StatusSettles (PollStatus ep1) (Resolved (Some (job_with processing (js ''Joining'')))),
         IntervalFires]"
  by (simp add: mounted_def checkAudioStatus_def polling_effect_def terminal_def job_with_def
      observed_status_def)

end
